theory Spec2Isabelle
  imports Complex_Main "HOL-Library.Word"
begin

unbundle bit_operations_syntax

section \<open>Errors raised by the lightmap baker\<close>

text \<open>
  The atlas mapper raises plain \<^verbatim>\<open>Error\<close> objects that differ only in their message;
  each message is one constructor.  \<open>TypeError\<close> and \<open>RangeError\<close> are the exceptions of
  the JavaScript runtime itself (a property read on \<^verbatim>\<open>undefined\<close>, a typed-array
  \<^verbatim>\<open>set\<close> outside the array).
\<close>

datatype error =
    ExpectedFaceIndexArray
  | ExpectedNormalAttribute
  | ExpectedUV2Attribute
  | UnsupportedMaterial
  | ForeignLightMap
  | TypeError
  | RangeError

section \<open>Atlas mapper (IrradianceAtlasMapper)\<close>

definition MAX_ITEM_FACES :: nat where
  "MAX_ITEM_FACES = 1000"

text \<open>
  A vertex attribute is either a plain \<^verbatim>\<open>THREE.BufferAttribute\<close> (its flat array and
  its item size) or an object of another attribute class, which the mapper rejects.
  Textures, meshes and buffers are referred to by handles.
\<close>

datatype attribute =
    BufferAttribute (array: "real list") (itemSize: nat)
  | InterleavedBufferAttribute

record BufferGeometry =
  index :: "nat list option"
  uv2 :: "attribute option"
  normal :: "attribute option"

datatype geometry = LegacyGeometry | BufferGeom BufferGeometry

datatype material_class =
  MeshLambertMaterial | MeshPhongMaterial | MeshStandardMaterial | MeshBasicMaterial

record Material =
  material_class :: material_class
  lightMap :: "nat option"

datatype mesh_material = NoMaterial | MaterialArray "Material list" | SingleMaterial Material

datatype object3d =
    Mesh (mesh_geometry: geometry) (mesh_material: mesh_material)
  | Group

text \<open>
  The payload buffer built for one mesh.  A \<^verbatim>\<open>Float32BufferAttribute\<close> slot that
  receives \<^verbatim>\<open>undefined\<close> holds NaN, written \<open>None\<close>.  The uv2 and normal entries are
  copies of the entries of the mesh's own attributes, taken to be float32 numbers
  already; the face-position entries are computed by the mapper and rounded on storage.
\<close>

record PerFaceBuffer =
  pf_position :: "(nat \<times> nat \<times> nat) list"
  pf_uv2 :: "real option list"
  pf_normal :: "real option list"

record AtlasMapItem =
  faceCount :: real
  perFaceBuffer :: PerFaceBuffer
  originalMesh :: nat
  originalBuffer :: BufferGeometry

text \<open>\<^verbatim>\<open>BufferAttribute.copyAt\<close> reads \<open>n\<close> consecutive entries of the source array.\<close>

definition readAt :: "real list \<Rightarrow> nat \<Rightarrow> real option" where
  "readAt a i = (if i < length a then Some (a ! i) else None)"

definition copyAt :: "nat \<Rightarrow> real list \<Rightarrow> nat \<Rightarrow> nat \<Rightarrow> real option list" where
  "copyAt n src srcItemSize index2 =
     map (\<lambda>i. readAt src (index2 * srcItemSize + i)) [0..<n]"

text \<open>
  A \<^verbatim>\<open>Float32BufferAttribute\<close> keeps its entries in a \<^verbatim>\<open>Float32Array\<close>: a number
  written to it is rounded to the nearest number with a significand of 24 bits, a tie
  going to the even significand.  The face-position triple holds non-negative integers
  only, so the rounding is modelled on the naturals: \<open>bitLength n\<close> is the number of
  binary digits of \<open>n\<close>, and \<open>toFloat32 n\<close> drops the digits below the leading 24.
  Array lengths are below \<open>2 ^ 32\<close>, which keeps every id below \<open>2 ^ 43\<close>; the overflow
  of float32 to infinity (from \<open>2 ^ 128\<close>) is out of reach and not modelled.
\<close>

fun bitLength :: "nat \<Rightarrow> nat" where
  "bitLength n = (if n = 0 then 0 else Suc (bitLength (n div 2)))"

declare bitLength.simps [simp del]

definition toFloat32 :: "nat \<Rightarrow> nat" where
  "toFloat32 n =
     (let e = bitLength n - 24;
          q = n div 2 ^ e;
          r = n mod 2 ^ e
      in if 2 * r < 2 ^ e \<or> (2 * r = 2 ^ e \<and> even q) then q * 2 ^ e else (q + 1) * 2 ^ e)"

text \<open>
  The body of the unrolling loop for one \<open>faceVertexIndex\<close>: the face-position triple
  that \<^verbatim>\<open>atlasFacePosAttr.setXYZ\<close> leaves in the attribute.
\<close>

definition atlasFacePos :: "nat \<Rightarrow> nat \<Rightarrow> nat \<times> nat \<times> nat" where
  "atlasFacePos itemIndex faceVertexIndex =
     (let faceMod = faceVertexIndex mod 3;
          facePosX = faceMod AND 1;
          facePosY = drop_bit 1 (faceMod AND 2);
          faceIndex = (faceVertexIndex - faceMod) div 3
      in (toFloat32 facePosX, toFloat32 facePosY,
          toFloat32 (itemIndex * MAX_ITEM_FACES + faceIndex + 1)))"

definition unrollBuffer ::
  "nat \<Rightarrow> nat list \<Rightarrow> real list \<Rightarrow> nat \<Rightarrow> real list \<Rightarrow> nat \<Rightarrow> PerFaceBuffer" where
  "unrollBuffer itemIndex indexData uv2Array uv2Size normalArray normalSize =
     \<lparr> pf_position = map (atlasFacePos itemIndex) [0..<length indexData],
       pf_uv2 = concat (map (copyAt 2 uv2Array uv2Size) indexData),
       pf_normal = concat (map (copyAt 3 normalArray normalSize) indexData) \<rparr>"

text \<open>
  The material check that ends the callback: only a single Lambert, Phong or standard
  material is accepted, and it must not carry a light map other than the baker's.
\<close>

definition attachLightMap :: "nat \<Rightarrow> mesh_material \<Rightarrow> error + mesh_material" where
  "attachLightMap lightMapTex mat =
     (case mat of
        NoMaterial \<Rightarrow> Inl UnsupportedMaterial
      | MaterialArray ms \<Rightarrow> Inl UnsupportedMaterial
      | SingleMaterial m \<Rightarrow>
          (if material_class m \<noteq> MeshLambertMaterial \<and>
              material_class m \<noteq> MeshPhongMaterial \<and>
              material_class m \<noteq> MeshStandardMaterial
           then Inl UnsupportedMaterial
           else if lightMap m \<noteq> None \<and> lightMap m \<noteq> Some lightMapTex
           then Inl ForeignLightMap
           else Inr (SingleMaterial (m\<lparr>lightMap := Some lightMapTex\<rparr>))))"

text \<open>
  The part of the callback that runs once the mesh is known to have a buffer geometry with
  a \<^verbatim>\<open>uv2\<close> attribute: the remaining attribute checks, in the order of the source,
  and the new item.
\<close>

definition makeItem ::
  "nat \<Rightarrow> nat \<Rightarrow> BufferGeometry \<Rightarrow> attribute \<Rightarrow> error + AtlasMapItem" where
  "makeItem itemIndex h buffer uv2Attr =
     (case index buffer of
        None \<Rightarrow> Inl ExpectedFaceIndexArray
      | Some indexData \<Rightarrow>
         (case normal buffer of
            None \<Rightarrow> Inl ExpectedNormalAttribute
          | Some InterleavedBufferAttribute \<Rightarrow> Inl ExpectedNormalAttribute
          | Some (BufferAttribute normalArray normalSize) \<Rightarrow>
             (case uv2Attr of
                InterleavedBufferAttribute \<Rightarrow> Inl ExpectedUV2Attribute
              | BufferAttribute uv2Array uv2Size \<Rightarrow>
                  Inr \<lparr> faceCount = real (length indexData) / 3,
                        perFaceBuffer = unrollBuffer itemIndex indexData
                                          uv2Array uv2Size normalArray normalSize,
                        originalMesh = h,
                        originalBuffer = buffer \<rparr>)))"

text \<open>
  The callback of \<^verbatim>\<open>lightScene.traverse\<close> for the object with handle \<open>h\<close>.  It returns
  the error thrown, or the item list and the object (its material now carrying the light
  map).  Anything that is not a mesh with a buffer geometry and a \<^verbatim>\<open>uv2\<close> attribute
  is passed over.
\<close>

definition visitObject ::
  "nat \<Rightarrow> AtlasMapItem list \<Rightarrow> nat \<Rightarrow> object3d \<Rightarrow> error + (AtlasMapItem list \<times> object3d)" where
  "visitObject lightMapTex items h obj =
     (case obj of
        Group \<Rightarrow> Inr (items, obj)
      | Mesh LegacyGeometry mat \<Rightarrow> Inr (items, obj)
      | Mesh (BufferGeom buffer) mat \<Rightarrow>
         (case uv2 buffer of
            None \<Rightarrow> Inr (items, obj)
          | Some uv2Attr \<Rightarrow>
             (case makeItem (length items) h buffer uv2Attr of
                Inl e \<Rightarrow> Inl e
              | Inr item \<Rightarrow>
                 (case attachLightMap lightMapTex mat of
                    Inl e \<Rightarrow> Inl e
                  | Inr mat' \<Rightarrow> Inr (items @ [item], Mesh (BufferGeom buffer) mat')))))"

text \<open>
  The traversal: objects are visited in order, \<open>h\<close> counting them.  A throw ends the
  effect before \<^verbatim>\<open>setInputItems\<close>, so no item list is produced; the objects visited
  before keep their new light map, which is why the scene is returned in both cases.
\<close>

fun traverse ::
  "nat \<Rightarrow> AtlasMapItem list \<Rightarrow> nat \<Rightarrow> object3d list \<Rightarrow> (error + AtlasMapItem list) \<times> object3d list" where
  "traverse lightMapTex items h [] = (Inr items, [])"
| "traverse lightMapTex items h (obj # rest) =
     (case visitObject lightMapTex items h obj of
        Inl e \<Rightarrow> (Inl e, obj # rest)
      | Inr (items', obj') \<Rightarrow>
         (case traverse lightMapTex items' (Suc h) rest of
            (r, rest') \<Rightarrow> (r, obj' # rest')))"

definition collectItems :: "nat \<Rightarrow> object3d list \<Rightarrow> (error + AtlasMapItem list) \<times> object3d list" where
  "collectItems lightMapTex scene = traverse lightMapTex [] 0 scene"

text \<open>
  The encoded id that the mapper stored for un-indexed vertex \<open>faceVertexIndex\<close> of item
  \<open>itemIndex\<close> (the third component of the payload position), if the pass produced it.
\<close>

definition encodedIdAt :: "error + AtlasMapItem list \<Rightarrow> nat \<Rightarrow> nat \<Rightarrow> nat option" where
  "encodedIdAt result itemIndex faceVertexIndex =
     (case result of
        Inl e \<Rightarrow> None
      | Inr items \<Rightarrow>
          if itemIndex < length items \<and>
             faceVertexIndex < length (pf_position (perFaceBuffer (items ! itemIndex)))
          then Some (snd (snd (pf_position (perFaceBuffer (items ! itemIndex)) ! faceVertexIndex)))
          else None)"

text \<open>Every item of a pass carries the ids of its own position in the item list.\<close>

definition idsFrom :: "AtlasMapItem list \<Rightarrow> bool" where
  "idsFrom items = (\<forall>j < length items.
      pf_position (perFaceBuffer (items ! j)) =
        map (atlasFacePos j) [0..<length (pf_position (perFaceBuffer (items ! j)))])"

subsection \<open>Example scenes\<close>

text \<open>A two-triangle quad, and a mesh of \<open>n\<close> triangles over the same three vertices.\<close>

definition lambert :: Material where
  "lambert = \<lparr> material_class = MeshLambertMaterial, lightMap = None \<rparr>"

definition quadBuffer :: BufferGeometry where
  "quadBuffer = \<lparr> index = Some [0, 1, 2, 2, 1, 3],
                   uv2 = Some (BufferAttribute [0, 0, 1, 0, 0, 1, 1, 1] 2),
                   normal = Some (BufferAttribute [0, 0, 1, 0, 0, 1, 0, 0, 1, 0, 0, 1] 3) \<rparr>"

definition quadScene :: "object3d list" where
  "quadScene = [Group, Mesh (BufferGeom quadBuffer) (SingleMaterial lambert)]"

text \<open>A scene of \<open>n\<close> such quads, each a mesh with a material of its own.\<close>

definition quadRow :: "nat \<Rightarrow> object3d list" where
  "quadRow n = replicate n (Mesh (BufferGeom quadBuffer) (SingleMaterial lambert))"

definition stackedIndex :: "nat \<Rightarrow> nat list" where
  "stackedIndex n = concat (replicate n [0, 1, 2])"

definition stackedBuffer :: "nat \<Rightarrow> BufferGeometry" where
  "stackedBuffer n = \<lparr> index = Some (stackedIndex n),
                   uv2 = Some (BufferAttribute [0, 0, 1, 0, 0, 1] 2),
                   normal = Some (BufferAttribute [0, 0, 1, 0, 0, 1, 0, 0, 1] 3) \<rparr>"

text \<open>A mesh with a \<^verbatim>\<open>uv2\<close> attribute but no index, and one with no attributes at all.\<close>

definition unindexedBuffer :: BufferGeometry where
  "unindexedBuffer = \<lparr> index = None,
                        uv2 = Some (BufferAttribute [0, 0, 1, 0, 0, 1] 2),
                        normal = Some (BufferAttribute [0, 0, 1, 0, 0, 1, 0, 0, 1] 3) \<rparr>"

definition bareBuffer :: BufferGeometry where
  "bareBuffer = \<lparr> index = None, uv2 = None, normal = None \<rparr>"

section \<open>Progressive renderer (useAtlas)\<close>

text \<open>
  JavaScript numbers are modelled by exact reals and integers; a value that is NaN or
  infinite in the source is \<open>None\<close>.  Bytes of a \<^verbatim>\<open>Uint8Array\<close> are 8-bit words.
\<close>

type_synonym vec3 = "real \<times> real \<times> real"

definition atlasWidth :: nat where
  "atlasWidth = 128"

definition atlasHeight :: nat where
  "atlasHeight = 128"

definition probeTargetSize :: nat where
  "probeTargetSize = 32"

record AtlasTexture =
  data :: "8 word list"
  needsUpdate :: bool

definition createAtlasTexture :: "nat \<Rightarrow> nat \<Rightarrow> bool \<Rightarrow> AtlasTexture" where
  "createAtlasTexture w h fillWithPattern =
     \<lparr> data = (if fillWithPattern
                then concat (map (\<lambda>i. let x = i mod w; y = i div w;
                                          v = (if x mod 8 = 0 \<or> y mod 8 = 0 then 0 else 255)
                                      in [v, v, v]) [0..<w * h])
                else replicate (3 * (w * h)) 0),
       needsUpdate = False \<rparr>"

text \<open>The arrays of a mesh buffer that the renderer reads.\<close>

record MeshBuffer =
  positionArray :: "real list"
  normalArray :: "real list"

text \<open>
  \<open>pixelFillCount\<close> becomes NaN (\<open>None\<close>) once a face without texels has been ticked.
  The field \<^verbatim>\<open>top\<close> of the source is \<open>top_edge\<close> here.
\<close>

record AtlasItem =
  mesh :: nat
  buffer :: MeshBuffer
  faceIndex :: nat
  left :: real
  top_edge :: real
  right :: real
  bottom :: real
  pixelFillCount :: "nat option"

record Camera =
  cam_position :: vec3
  cam_up :: vec3
  cam_target :: vec3

text \<open>
  The state that survives between frames.  \<open>probeCam\<close> is the camera in mesh-local
  space, as it stands before \<^verbatim>\<open>applyMatrix4(mesh.matrixWorld)\<close>, with the point passed
  to \<^verbatim>\<open>lookAt\<close> kept as \<open>cam_target\<close>; \<open>None\<close> when a coordinate is not finite.
\<close>

record RendererState =
  atlasInfo :: "AtlasItem list"
  atlasStack :: "AtlasTexture list"
  atlasFaceFillIndex :: nat
  probeCam :: "Camera option"
  probeData :: "8 word list"
  probeDebugNeedsUpdate :: bool

text \<open>
  What one frame takes from outside: the value of \<^verbatim>\<open>Math.random()\<close> and the bytes
  that \<^verbatim>\<open>readRenderTargetPixels\<close> stores into \<open>probeData\<close>, by index.
\<close>

record TickInput =
  rnd :: real
  readback :: "nat \<Rightarrow> 8 word"

definition initialState :: RendererState where
  "initialState =
     \<lparr> atlasInfo = [],
       atlasStack = [createAtlasTexture atlasWidth atlasHeight True,
                     createAtlasTexture atlasWidth atlasHeight False],
       atlasFaceFillIndex = 4,
       probeCam = Some \<lparr> cam_position = (0, 0, 0), cam_up = (0, 1, 0), cam_target = (0, 0, -1) \<rparr>,
       probeData = replicate (probeTargetSize * probeTargetSize * 4) 0,
       probeDebugNeedsUpdate = False \<rparr>"

subsection \<open>The fill cursor\<close>

text \<open>
  \<^verbatim>\<open>a % b\<close> for a dividend that is NaN or a non-negative integer: NaN for a zero
  divisor, otherwise the remainder carries the sign of the dividend.
\<close>

definition jsRem :: "nat option \<Rightarrow> int \<Rightarrow> nat option" where
  "jsRem a b = (case a of
                  None \<Rightarrow> None
                | Some n \<Rightarrow> if b = 0 then None else Some (n mod nat \<bar>b\<bar>))"

definition itemSizeU :: "AtlasItem \<Rightarrow> real" where
  "itemSizeU f = (right f - left f) * real atlasWidth"

definition itemSizeV :: "AtlasItem \<Rightarrow> real" where
  "itemSizeV f = (bottom f - top_edge f) * real atlasHeight"

definition faceTexelCols :: "AtlasItem \<Rightarrow> int" where
  "faceTexelCols f = \<lceil>itemSizeU f\<rceil>"

definition faceTexelRows :: "AtlasItem \<Rightarrow> int" where
  "faceTexelRows f = \<lceil>itemSizeV f\<rceil>"

definition faceTexelX :: "AtlasItem \<Rightarrow> nat option" where
  "faceTexelX f = jsRem (pixelFillCount f) (faceTexelCols f)"

text \<open>
  \<^verbatim>\<open>Math.floor(fillCount / faceTexelCols)\<close>; with no columns the quotient is NaN or
  infinite.
\<close>

definition faceTexelY :: "AtlasItem \<Rightarrow> int option" where
  "faceTexelY f = (case pixelFillCount f of
                     None \<Rightarrow> None
                   | Some n \<Rightarrow> if faceTexelCols f = 0 then None
                               else Some (int n div faceTexelCols f))"

definition nextFillCount :: "AtlasItem \<Rightarrow> nat option" where
  "nextFillCount f =
     jsRem (map_option Suc (pixelFillCount f)) (faceTexelRows f * faceTexelCols f)"

definition atlasTexelLeft :: "AtlasItem \<Rightarrow> real" where
  "atlasTexelLeft f = left f * real atlasWidth"

definition atlasTexelTop :: "AtlasItem \<Rightarrow> real" where
  "atlasTexelTop f = top_edge f * real atlasWidth"

definition atlasTexelX :: "AtlasItem \<Rightarrow> int option" where
  "atlasTexelX f = map_option (\<lambda>x. \<lfloor>atlasTexelLeft f\<rfloor> + int x) (faceTexelX f)"

definition atlasTexelY :: "AtlasItem \<Rightarrow> int option" where
  "atlasTexelY f = map_option (\<lambda>y. \<lfloor>atlasTexelTop f\<rfloor> + y) (faceTexelY f)"

text \<open>The offset \<^verbatim>\<open>(atlasTexelY * atlasWidth + atlasTexelX) * 3\<close> of the texel's slot.\<close>

definition texelOffset :: "AtlasItem \<Rightarrow> int option" where
  "texelOffset f = (case (atlasTexelX f, atlasTexelY f) of
                      (Some x, Some y) \<Rightarrow> Some ((y * int atlasWidth + x) * 3)
                    | _ \<Rightarrow> None)"

text \<open>
  The atlas texel \<^verbatim>\<open>(atlasTexelX, atlasTexelY)\<close> that a frame resolves for a face, and
  the offset of a texel's slot in the buffer: \<open>texelOffset f\<close> is \<open>slotAt\<close> of \<open>texelOf f\<close>.
\<close>

definition texelOf :: "AtlasItem \<Rightarrow> (int \<times> int) option" where
  "texelOf f = (case (atlasTexelX f, atlasTexelY f) of
                  (Some x, Some y) \<Rightarrow> Some (x, y)
                | _ \<Rightarrow> None)"

definition slotAt :: "int \<times> int \<Rightarrow> int" where
  "slotAt p = (snd p * int atlasWidth + fst p) * 3"

text \<open>
  Promotion: the last buffer of the stack becomes the first.  The stack is never empty
  when this runs (it starts with two buffers and promotion keeps its length).
\<close>

definition promote :: "AtlasTexture list \<Rightarrow> AtlasTexture list" where
  "promote prev = (if prev = [] then [] else last prev # butlast prev)"

subsection \<open>Probe placement\<close>

definition readVec3 :: "real list \<Rightarrow> nat \<Rightarrow> vec3 option" where
  "readVec3 a start =
     (case (readAt a start, readAt a (start + 1), readAt a (start + 2)) of
        (Some x, Some y, Some z) \<Rightarrow> Some (x, y, z)
      | _ \<Rightarrow> None)"

text \<open>
  \<^verbatim>\<open>pU\<close> and \<^verbatim>\<open>pV\<close>: the centre of the texel in the face's own coordinates.  A face
  of zero width or height makes the quotient NaN or infinite.
\<close>

definition pU :: "AtlasItem \<Rightarrow> real option" where
  "pU f = (case atlasTexelX f of
             None \<Rightarrow> None
           | Some x \<Rightarrow> if itemSizeU f = 0 then None
                       else Some ((real_of_int x + 0.5 - atlasTexelLeft f) / itemSizeU f))"

definition pV :: "AtlasItem \<Rightarrow> real option" where
  "pV f = (case atlasTexelY f of
             None \<Rightarrow> None
           | Some y \<Rightarrow> if itemSizeV f = 0 then None
                       else Some ((real_of_int y + 0.5 - atlasTexelTop f) / itemSizeV f))"

text \<open>
  The camera for a texel at \<open>(u, v)\<close> of the face: its position, and the point it looks
  at, from the corners read at \<open>facePosOrigin\<close>, \<open>facePosU\<close>, \<open>facePosV\<close> and the normal
  read at \<open>faceNormalStart\<close>; \<open>upAngle\<close> is \<^verbatim>\<open>Math.random() * Math.PI\<close>.
\<close>

definition placeProbe :: "MeshBuffer \<Rightarrow> nat \<Rightarrow> real \<Rightarrow> real \<Rightarrow> real \<Rightarrow> Camera option" where
  "placeProbe buf fi u v upAngle =
     (let facePosStart = fi * 4 * 3;
          facePosOrigin = facePosStart + 2 * 3;
          facePosU = facePosStart + 3 * 3;
          facePosV = facePosStart;
          faceNormalStart = fi * 4 * 3
      in case (readVec3 (positionArray buf) facePosOrigin,
               readVec3 (positionArray buf) facePosU,
               readVec3 (positionArray buf) facePosV,
               readVec3 (normalArray buf) faceNormalStart) of
           (Some (ox, oy, oz), Some (ux, uy, uz), Some (vx, vy, vz), Some (nx, ny, nz)) \<Rightarrow>
             (let dUx = ux - ox; dUy = uy - oy; dUz = uz - oz;
                  dVx = vx - ox; dVy = vy - oy; dVz = vz - oz;
                  tx = ox + dUx * u + dVx * v;
                  ty = oy + dUy * u + dVy * v;
                  tz = oz + dUz * u + dVz * v;
                  upAngleCos = cos upAngle;
                  upAngleSin = sin upAngle
              in Some \<lparr> cam_position = (tx, ty, tz),
                        cam_up = (dUx * upAngleCos - dVx * upAngleSin,
                                  dUy * upAngleCos - dVy * upAngleSin,
                                  dUz * upAngleCos - dVz * upAngleSin),
                        cam_target = (tx + nx, ty + ny, tz + nz) \<rparr>)
         | _ \<Rightarrow> None)"

definition probeFor :: "AtlasItem \<Rightarrow> real \<Rightarrow> Camera option" where
  "probeFor f r =
     (case (pU f, pV f) of
        (Some u, Some v) \<Rightarrow> placeProbe (buffer f) (faceIndex f) u v (r * pi)
      | _ \<Rightarrow> None)"

subsection \<open>Averaging the probe and storing the texel\<close>

text \<open>
  The summing loop steps through \<open>probeData\<close> four bytes at a time.  The array always
  holds \<open>probeTargetSize * probeTargetSize * 4\<close> bytes, so the last equation is only
  reached at its end.
\<close>

fun sumProbe :: "8 word list \<Rightarrow> nat \<times> nat \<times> nat \<Rightarrow> nat \<times> nat \<times> nat" where
  "sumProbe (r0 # g0 # b0 # a0 # rest) (r, g, b) =
     sumProbe rest (r + unat r0, g + unat g0, b + unat b0)"
| "sumProbe _ acc = acc"

text \<open>\<^verbatim>\<open>Math.round\<close> of a quotient of non-negative integers: halves go up.\<close>

definition mathRound :: "real \<Rightarrow> int" where
  "mathRound x = \<lfloor>x + 1 / 2\<rfloor>"

definition averageProbe :: "8 word list \<Rightarrow> int \<times> int \<times> int" where
  "averageProbe d =
     (case sumProbe d (0, 0, 0) of
        (r, g, b) \<Rightarrow>
          (let pixelCount = probeTargetSize * probeTargetSize
           in (mathRound (real r / real pixelCount),
               mathRound (real g / real pixelCount),
               mathRound (real b / real pixelCount))))"

text \<open>
  \<^verbatim>\<open>Uint8Array.prototype.set(source, offset)\<close>: a NaN offset counts as 0, an offset
  that does not leave room for the source raises \<^verbatim>\<open>RangeError\<close>, and each value is
  stored modulo 256.
\<close>

definition typedArraySet :: "8 word list \<Rightarrow> int list \<Rightarrow> int option \<Rightarrow> error + 8 word list" where
  "typedArraySet d src offset =
     (let off = (case offset of None \<Rightarrow> 0 | Some k \<Rightarrow> k)
      in if off < 0 \<or> int (length d) < off + int (length src) then Inl RangeError
         else Inr (take (nat off) d @ map word_of_int src @ drop (nat off + length src) d))"

subsection \<open>One frame\<close>

text \<open>
  The frame callback.  An empty \<open>atlasInfo\<close> returns at once.  Reading the fields of
  \<^verbatim>\<open>atlasInfo[currentAtlasFaceIndex]\<close> raises \<^verbatim>\<open>TypeError\<close> when the index is
  outside the list.  The write goes to the buffer that is first in the stack during this
  frame; a promotion requested in this frame (\<^verbatim>\<open>setAtlasStack\<close>) reorders the stack for
  the next one.  The source advances the cursor before it renders and writes; a frame that
  raises is an \<open>Inl\<close> here, and the state it leaves behind is not modelled.
\<close>

definition tick :: "TickInput \<Rightarrow> RendererState \<Rightarrow> error + RendererState" where
  "tick inp s =
     (if atlasInfo s = [] then Inr s
      else if length (atlasInfo s) \<le> atlasFaceFillIndex s then Inl TypeError
      else
        let currentAtlasFaceIndex = atlasFaceFillIndex s;
            atlasFaceInfo = atlasInfo s ! currentAtlasFaceIndex;
            fill = nextFillCount atlasFaceInfo;
            info' = (atlasInfo s)[currentAtlasFaceIndex := atlasFaceInfo\<lparr>pixelFillCount := fill\<rparr>];
            index' = (if fill = Some 0
                      then (currentAtlasFaceIndex + 1) mod length (atlasInfo s)
                      else currentAtlasFaceIndex);
            promoted = (fill = Some 0 \<and> index' = 4);
            probeData' = map (readback inp) [0..<probeTargetSize * probeTargetSize * 4];
            (ar, ag, ab) = averageProbe probeData'
        in case atlasStack s of
             [] \<Rightarrow> Inl TypeError
           | first # others \<Rightarrow>
              (case typedArraySet (data first) [ar, ag, ab] (texelOffset atlasFaceInfo) of
                 Inl e \<Rightarrow> Inl e
               | Inr data' \<Rightarrow>
                  (let stack' = \<lparr> data = data', needsUpdate = True \<rparr> # others
                   in Inr \<lparr> atlasInfo = info',
                            atlasStack = (if promoted then promote stack' else stack'),
                            atlasFaceFillIndex = index',
                            probeCam = probeFor atlasFaceInfo (rnd inp),
                            probeData = probeData',
                            probeDebugNeedsUpdate = True \<rparr>)))"

text \<open>Consecutive frames; the first exception ends the run.\<close>

fun ticks :: "TickInput list \<Rightarrow> RendererState \<Rightarrow> error + RendererState" where
  "ticks [] s = Inr s"
| "ticks (inp # inps) s =
     (case tick inp s of Inl e \<Rightarrow> Inl e | Inr s' \<Rightarrow> ticks inps s')"

text \<open>
  The cursor of a state: the face being filled and the texel offset within it that the
  next frame handles.  \<open>visited\<close> lists the cursor before each frame of a run.
\<close>

definition cursor :: "RendererState \<Rightarrow> nat \<times> nat option" where
  "cursor s = (atlasFaceFillIndex s,
               if atlasFaceFillIndex s < length (atlasInfo s)
               then pixelFillCount (atlasInfo s ! atlasFaceFillIndex s) else None)"

fun visited :: "TickInput list \<Rightarrow> RendererState \<Rightarrow> (nat \<times> nat option) list" where
  "visited [] s = []"
| "visited (inp # inps) s =
     cursor s # (case tick inp s of Inl e \<Rightarrow> [] | Inr s' \<Rightarrow> visited inps s')"

text \<open>
  \<open>traced g\<close> lists, before each frame of a run, what \<open>g\<close> gives for the face under the
  cursor: with \<open>texelOf\<close> the texel that the frame resolves, with \<open>texelOffset\<close> the
  offset at which it writes.
\<close>

fun traced :: "(AtlasItem \<Rightarrow> 'a option) \<Rightarrow> TickInput list \<Rightarrow> RendererState \<Rightarrow> 'a option list" where
  "traced g [] s = []"
| "traced g (inp # inps) s =
     (if atlasFaceFillIndex s < length (atlasInfo s)
      then g (atlasInfo s ! atlasFaceFillIndex s) else None) #
     (case tick inp s of Inl e \<Rightarrow> [] | Inr s' \<Rightarrow> traced g inps s')"

subsection \<open>A pass over the atlas\<close>

text \<open>
  The number of texels the cursor visits in a face, and the conditions under which a
  pass runs without an exception: every face has at least one texel and each of its slots
  lies inside every buffer of the stack.
\<close>

definition faceTexels :: "AtlasItem \<Rightarrow> nat" where
  "faceTexels f = nat (faceTexelRows f * faceTexelCols f)"

definition slotFits :: "nat \<Rightarrow> AtlasItem \<Rightarrow> bool" where
  "slotFits len f = (case texelOffset f of
                       None \<Rightarrow> 3 \<le> len
                     | Some k \<Rightarrow> 0 \<le> k \<and> k + 3 \<le> int len)"

definition faceFits :: "nat \<Rightarrow> AtlasItem \<Rightarrow> bool" where
  "faceFits len f = (0 < faceTexelRows f * faceTexelCols f \<and>
      list_all (\<lambda>t. slotFits len (f\<lparr>pixelFillCount := Some t\<rparr>)) [0..<faceTexels f])"

definition stackFits :: "AtlasItem list \<Rightarrow> AtlasTexture list \<Rightarrow> bool" where
  "stackFits infos stack =
     (stack \<noteq> [] \<and> list_all (\<lambda>b. list_all (faceFits (length (data b))) infos) stack)"

text \<open>
  A state ready to begin a pass: more than four faces, the cursor on face 4, every fill
  count at 0.
\<close>

definition passStart :: "RendererState \<Rightarrow> bool" where
  "passStart s = (4 < length (atlasInfo s) \<and> atlasFaceFillIndex s = 4 \<and>
      list_all (\<lambda>f. pixelFillCount f = Some 0) (atlasInfo s) \<and>
      stackFits (atlasInfo s) (atlasStack s))"

text \<open>
  The cursor positions of the faces \<open>faces\<close>, each face from its first texel to its last.
\<close>

definition faceVisits :: "AtlasItem list \<Rightarrow> nat list \<Rightarrow> (nat \<times> nat option) list" where
  "faceVisits infos faces =
     concat (map (\<lambda>j. map (\<lambda>t. (j, Some t)) [0..<faceTexels (infos ! j)]) faces)"

text \<open>
  The texels of a face's rectangle on the atlas grid, row by row from its top left texel
  \<open>(\<lfloor>atlasTexelLeft\<rfloor>, \<lfloor>atlasTexelTop\<rfloor>)\<close>, each row from left to right.
\<close>

definition faceGrid :: "AtlasItem \<Rightarrow> (int \<times> int) list" where
  "faceGrid f =
     concat (map (\<lambda>r. map (\<lambda>c. (\<lfloor>atlasTexelLeft f\<rfloor> + int c, \<lfloor>atlasTexelTop f\<rfloor> + int r))
                           [0..<nat (faceTexelCols f)])
                 [0..<nat (faceTexelRows f)])"

text \<open>The per-channel mean of a probe readback, over all its pixels.\<close>

definition channelMean :: "(nat \<Rightarrow> 8 word) \<Rightarrow> nat \<Rightarrow> real" where
  "channelMean rb c =
     real (\<Sum>k < probeTargetSize * probeTargetSize. unat (rb (4 * k + c))) /
     real (probeTargetSize * probeTargetSize)"

subsection \<open>Vectors and the interpolation of the specification\<close>

definition vadd :: "vec3 \<Rightarrow> vec3 \<Rightarrow> vec3" where
  "vadd a b = (case (a, b) of ((ax, ay, az), (bx, by, bz)) \<Rightarrow> (ax + bx, ay + by, az + bz))"

definition vsub :: "vec3 \<Rightarrow> vec3 \<Rightarrow> vec3" where
  "vsub a b = (case (a, b) of ((ax, ay, az), (bx, by, bz)) \<Rightarrow> (ax - bx, ay - by, az - bz))"

definition vscale :: "real \<Rightarrow> vec3 \<Rightarrow> vec3" where
  "vscale k a = (case a of (ax, ay, az) \<Rightarrow> (k * ax, k * ay, k * az))"

text \<open>
  Bilinear interpolation across a quad from its four corners, following the words of the
  specification (not the code): \<open>c00\<close> is the corner at \<open>(U, V) = (0, 0)\<close>, \<open>c10\<close> at
  \<open>(1, 0)\<close>, \<open>c01\<close> at \<open>(0, 1)\<close> and \<open>c11\<close> at \<open>(1, 1)\<close>.
\<close>

definition bilinear :: "vec3 \<Rightarrow> vec3 \<Rightarrow> vec3 \<Rightarrow> vec3 \<Rightarrow> real \<Rightarrow> real \<Rightarrow> vec3" where
  "bilinear c00 c10 c01 c11 u v =
     vadd (vadd (vscale ((1 - u) * (1 - v)) c00) (vscale (u * (1 - v)) c10))
          (vadd (vscale ((1 - u) * v) c01) (vscale (u * v) c11))"

subsection \<open>The slot a frame writes\<close>

text \<open>
  The index of the first byte that \<open>typedArraySet\<close> writes for a face, and the array after
  the three bytes of a readback's rounded channel means have been stored there.
\<close>

definition slotOf :: "AtlasItem \<Rightarrow> nat" where
  "slotOf f = nat (case texelOffset f of None \<Rightarrow> 0 | Some k \<Rightarrow> k)"

definition writeSlot :: "TickInput \<Rightarrow> 8 word list \<Rightarrow> nat \<Rightarrow> 8 word list" where
  "writeSlot inp d off =
     d[off := word_of_int (mathRound (channelMean (readback inp) 0)),
       off + 1 := word_of_int (mathRound (channelMean (readback inp) 1)),
       off + 2 := word_of_int (mathRound (channelMean (readback inp) 2))]"

subsection \<open>Example states\<close>

text \<open>
  A face of one quad whose atlas rectangle starts at texel \<open>(x, 0)\<close> and is \<open>w\<close> texels
  wide and one texel high, with the given position and normal arrays; a unit square and
  a trapezoid; normals that agree at the four corners and normals that do not.
\<close>

definition quadFace :: "real list \<Rightarrow> real list \<Rightarrow> nat \<Rightarrow> nat \<Rightarrow> AtlasItem" where
  "quadFace pos nrm x w = \<lparr> mesh = 0,
      buffer = \<lparr> positionArray = pos, normalArray = nrm \<rparr>,
      faceIndex = 0, left = real x / 128, top_edge = 0,
      right = real (x + w) / 128, bottom = 1 / 128, pixelFillCount = Some 0 \<rparr>"

definition squarePositions :: "real list" where
  "squarePositions = [0, 1, 0,  1, 1, 0,  0, 0, 0,  1, 0, 0]"

definition skewPositions :: "real list" where
  "skewPositions = [0, 1, 0,  2, 1, 0,  0, 0, 0,  1, 0, 0]"

definition flatNormals :: "real list" where
  "flatNormals = [0, 0, 1,  0, 0, 1,  0, 0, 1,  0, 0, 1]"

definition roundNormals :: "real list" where
  "roundNormals = [0, 0, 1,  1, 0, 0,  1, 0, 0,  1, 0, 0]"

text \<open>
  The unit square with flat normals on a rectangle that starts at texel \<open>(x, y)\<close> and is
  \<open>w\<close> texels wide and \<open>h\<close> texels high.
\<close>

definition gridFace :: "nat \<Rightarrow> nat \<Rightarrow> nat \<Rightarrow> nat \<Rightarrow> AtlasItem" where
  "gridFace x y w h = \<lparr> mesh = 0,
      buffer = \<lparr> positionArray = squarePositions, normalArray = flatNormals \<rparr>,
      faceIndex = 0, left = real x / 128, top_edge = real y / 128,
      right = real (x + w) / 128, bottom = real (y + h) / 128, pixelFillCount = Some 0 \<rparr>"

text \<open>
  The initial state once five faces have been registered, the fifth being \<open>f\<close>; and the
  initial state with a single face.
\<close>

definition stateWith :: "AtlasItem \<Rightarrow> RendererState" where
  "stateWith f = initialState
     \<lparr> atlasInfo := [quadFace squarePositions flatNormals 0 1, quadFace squarePositions flatNormals 1 1,
                     quadFace squarePositions flatNormals 2 1, quadFace squarePositions flatNormals 3 1, f] \<rparr>"

definition oneFaceState :: RendererState where
  "oneFaceState = initialState \<lparr> atlasInfo := [quadFace squarePositions flatNormals 0 1] \<rparr>"

text \<open>
  Frame inputs: a probe that reads back one byte value everywhere, and a probe that is black
  but for the red channel of its first pixel.
\<close>

definition solid :: "8 word \<Rightarrow> TickInput" where
  "solid c = \<lparr> rnd = 0, readback = (\<lambda>i. c) \<rparr>"

definition onePixel :: TickInput where
  "onePixel = \<lparr> rnd = 0, readback = (\<lambda>i. if i = 0 then 255 else 0) \<rparr>"

text \<open>
  A frame whose \<^verbatim>\<open>Math.random()\<close> returns 1/4, an up angle of an eighth of a turn, with
  a probe that reads back one byte value everywhere.
\<close>

definition eighthTurn :: "8 word \<Rightarrow> TickInput" where
  "eighthTurn c = \<lparr> rnd = 1 / 4, readback = (\<lambda>i. c) \<rparr>"

section \<open>Compositor (IrradianceCompositor)\<close>

type_synonym rgba = "real \<times> real \<times> real \<times> real"

text \<open>The renderer state that the compositor's frame callback touches or relies on.\<close>

record GL =
  autoClear :: bool
  clearColor :: vec3
  clearAlpha :: real

text \<open>The state of a fresh \<^verbatim>\<open>THREE.WebGLRenderer\<close>: it clears to transparent black.\<close>

definition defaultGL :: GL where
  "defaultGL = \<lparr> autoClear = True, clearColor = (0, 0, 0), clearAlpha = 0 \<rparr>"

text \<open>
  The uniforms of a \<open>CompositorLayerMaterial\<close>.  Its \<^verbatim>\<open>map\<close> uniform is the texture
  of the layer it is mounted in, so only the multiplier is kept.
\<close>

record ShaderMaterial =
  multiplier_value :: real

text \<open>
  A layer: the \<^verbatim>\<open>Float32Array\<close> behind its texture (four floats per texel, written
  by a renderer between frames) and the current value of its material ref.
\<close>

record Layer =
  layer_array :: "real list"
  layer_material :: "ShaderMaterial option"

record CompositorState =
  lightMapWidth :: nat
  lightMapHeight :: nat
  orthoSceneMounted :: bool
  baseLayer :: Layer
  factorLayers :: "(string \<times> Layer) list"
  gl :: GL
  orthoTarget :: "rgba list option"

definition createRendererTexture :: "nat \<Rightarrow> nat \<Rightarrow> real list" where
  "createRendererTexture w h = replicate (4 * (w * h)) 0"

text \<open>
  The compositor after its first commit: one layer per factor name, every material
  created with multiplier 0 and attached, nothing rendered yet.
\<close>

definition mountCompositor :: "nat \<Rightarrow> nat \<Rightarrow> string list \<Rightarrow> GL \<Rightarrow> CompositorState" where
  "mountCompositor w h factorNames g =
     \<lparr> lightMapWidth = w, lightMapHeight = h, orthoSceneMounted = True,
       baseLayer = \<lparr> layer_array = createRendererTexture w h,
                     layer_material = Some \<lparr> multiplier_value = 0 \<rparr> \<rparr>,
       factorLayers = map (\<lambda>name. (name, \<lparr> layer_array = createRendererTexture w h,
                                             layer_material = Some \<lparr> multiplier_value = 0 \<rparr> \<rparr>))
                          factorNames,
       gl = g, orthoTarget = None \<rparr>"

text \<open>
  \<^verbatim>\<open>factors && factors[factorName]\<close>: \<open>None\<close> when the prop or the key is missing.
\<close>

definition factorValue :: "(string \<rightharpoonup> real) option \<Rightarrow> string \<Rightarrow> real option" where
  "factorValue factors factorName = (case factors of None \<Rightarrow> None | Some fs \<Rightarrow> fs factorName)"

text \<open>
  The body of the loop over the factor names: the uniform is assigned when the ref is set
  and the multiplier is truthy, so not for a missing value and not for 0.
\<close>

definition updateMultiplier :: "real option \<Rightarrow> Layer \<Rightarrow> Layer" where
  "updateMultiplier multiplier l =
     (case (layer_material l, multiplier) of
        (Some m, Some v) \<Rightarrow>
          if v \<noteq> 0 then l\<lparr>layer_material := Some (m\<lparr>multiplier_value := v\<rparr>)\<rparr> else l
      | _ \<Rightarrow> l)"

definition updateBase :: "Layer \<Rightarrow> Layer" where
  "updateBase l =
     (case layer_material l of
        Some m \<Rightarrow> l\<lparr>layer_material := Some (m\<lparr>multiplier_value := 1\<rparr>)\<rparr>
      | None \<Rightarrow> l)"

text \<open>\<^verbatim>\<open>THREE.AdditiveBlending\<close>: source times source alpha, plus destination.\<close>

definition blendAdditive :: "rgba \<Rightarrow> rgba \<Rightarrow> rgba" where
  "blendAdditive src dst =
     (case (src, dst) of
        ((sr, sg, sb, sa), (dr, dg, db, da)) \<Rightarrow>
          (sr * sa + dr, sg * sa + dg, sb * sa + db, sa * sa + da))"

text \<open>
  One layer's quad at texel \<open>i\<close>: the fragment shader's colour
  \<^verbatim>\<open>vec4(texture2D(map, vUV).rgb * multiplier, 1.0)\<close> blended onto what the target holds.
  The quad spans the whole target and the layer's texture has the target's size, so texel
  \<open>i\<close> of the target samples texel \<open>i\<close> of the texture.  A layer whose material is not
  attached, or whose array is too short, is outside the model: \<open>None\<close>.
\<close>

definition drawLayer :: "nat \<Rightarrow> Layer \<Rightarrow> rgba option \<Rightarrow> rgba option" where
  "drawLayer i l dst =
     (case (dst, layer_material l, readVec3 (layer_array l) (4 * i)) of
        (Some d, Some m, Some (r, g, b)) \<Rightarrow>
          Some (blendAdditive (r * multiplier_value m, g * multiplier_value m,
                               b * multiplier_value m, 1) d)
      | _ \<Rightarrow> None)"

text \<open>
  \<^verbatim>\<open>gl.render(orthoScene, orthoCamera)\<close> with \<open>autoClear\<close> set: the target is cleared
  to the renderer's clear colour, then the base quad and the factor quads are drawn in the
  order of the scene's children.
\<close>

definition renderTexel :: "GL \<Rightarrow> Layer list \<Rightarrow> nat \<Rightarrow> rgba option" where
  "renderTexel g layers i =
     fold (drawLayer i) layers
       (case clearColor g of (cr, cg, cb) \<Rightarrow> Some (cr, cg, cb, clearAlpha g))"

definition render :: "GL \<Rightarrow> nat \<Rightarrow> nat \<Rightarrow> Layer list \<Rightarrow> rgba list option" where
  "render g w h layers = those (map (renderTexel g layers) [0..<w * h])"

text \<open>The frame callback, given the \<^verbatim>\<open>factors\<close> prop of the latest render.\<close>

definition compositorTick :: "(string \<rightharpoonup> real) option \<Rightarrow> CompositorState \<Rightarrow> CompositorState" where
  "compositorTick factors s =
     (if \<not> orthoSceneMounted s then s
      else
        let base' = updateBase (baseLayer s);
            factors' = map (\<lambda>(factorName, l).
                         (factorName, updateMultiplier (factorValue factors factorName) l))
                       (factorLayers s);
            gl' = (gl s)\<lparr>autoClear := True\<rparr>
        in s\<lparr> baseLayer := base', factorLayers := factors', gl := gl',
               orthoTarget := render gl' (lightMapWidth s) (lightMapHeight s)
                                (base' # map snd factors') \<rparr>)"

text \<open>A renderer filling a layer's array with one colour (alpha 1) between frames.\<close>

definition fillLayer :: "vec3 \<Rightarrow> Layer \<Rightarrow> Layer" where
  "fillLayer c l =
     (case c of (r, g, b) \<Rightarrow>
        l\<lparr>layer_array := concat (replicate (length (layer_array l) div 4) [r, g, b, 1])\<rparr>)"

definition multiplierOf :: "CompositorState \<Rightarrow> string \<Rightarrow> real option" where
  "multiplierOf s factorName =
     (case map_of (factorLayers s) factorName of
        Some l \<Rightarrow> map_option multiplier_value (layer_material l)
      | None \<Rightarrow> None)"

subsection \<open>Reading the composited image\<close>

text \<open>
  The colour of texel \<open>i\<close> of a layer's array, the multiplier uniform of a layer, the sum
  of a list of colours, the colour channels of a target texel, and the condition under
  which a layer is drawn by the model: its material is attached and its array covers \<open>n\<close>
  texels.
\<close>

definition sampleTexel :: "real list \<Rightarrow> nat \<Rightarrow> vec3" where
  "sampleTexel d i = (d ! (4 * i), d ! (4 * i + 1), d ! (4 * i + 2))"

definition layerMultiplier :: "Layer \<Rightarrow> real" where
  "layerMultiplier l = (case layer_material l of Some m \<Rightarrow> multiplier_value m | None \<Rightarrow> 0)"

definition vsum :: "vec3 list \<Rightarrow> vec3" where
  "vsum vs = foldr vadd vs (0, 0, 0)"

definition rgb :: "rgba \<Rightarrow> vec3" where
  "rgb c = (case c of (r, g, b, a) \<Rightarrow> (r, g, b))"

definition layerReady :: "nat \<Rightarrow> Layer \<Rightarrow> bool" where
  "layerReady n l = (layer_material l \<noteq> None \<and> 4 * n \<le> length (layer_array l))"

text \<open>
  An 8 by 8 compositor with one factor, \<^verbatim>\<open>sun\<close>, after the renderers have filled the
  base buffer with \<open>baseColour\<close> and the factor buffer with \<open>factorColour\<close>.
\<close>

definition scenario :: "vec3 \<Rightarrow> vec3 \<Rightarrow> CompositorState" where
  "scenario baseColour factorColour =
     (let s = mountCompositor 8 8 [''sun''] defaultGL
      in s\<lparr> baseLayer := fillLayer baseColour (baseLayer s),
             factorLayers := map (\<lambda>(factorName, l). (factorName, fillLayer factorColour l))
                                 (factorLayers s) \<rparr>)"

section \<open>Properties of the atlas mapper\<close>

lemma bitLength_bound: "n < 2 ^ k \<Longrightarrow> bitLength n \<le> k"
proof (induction k arbitrary: n)
  case 0
  then show ?case by (simp add: bitLength.simps)
next
  case (Suc k)
  then have "n div 2 < 2 ^ k" by simp
  from Suc.IH[OF this] show ?case by (subst bitLength.simps) simp
qed

lemma toFloat32_small: "n < 2 ^ 24 \<Longrightarrow> toFloat32 n = n"
  using bitLength_bound[of n 24] by (simp add: toFloat32_def)

lemma toFloat32_exact: "n \<le> 2 ^ 24 \<Longrightarrow> toFloat32 n = n"
proof (cases "n < 2 ^ 24")
  case True
  then show ?thesis by (rule toFloat32_small)
next
  case False
  assume "n \<le> 2 ^ 24"
  with False have n: "n = 16777216" by simp
  have "toFloat32 16777216 = 16777216"
    by (simp add: toFloat32_def bitLength.simps)
  with n show ?thesis by simp
qed

lemma atlasFacePos_id:
  "atlasFacePos k v =
     (toFloat32 (v mod 3 AND 1), toFloat32 (drop_bit 1 (v mod 3 AND 2)),
      toFloat32 (k * MAX_ITEM_FACES + v div 3 + 1))"
  by (simp add: atlasFacePos_def Let_def minus_mod_eq_div_mult)

lemma makeItem_position:
  "makeItem k h geo a = Inr item \<Longrightarrow>
   pf_position (perFaceBuffer item) =
     map (atlasFacePos k) [0..<length (pf_position (perFaceBuffer item))]"
  by (auto simp: makeItem_def unrollBuffer_def split: option.splits attribute.splits)

lemma visitObject_items:
  "visitObject lm items h obj = Inr (items', obj') \<Longrightarrow>
   items' = items \<or> (\<exists>item. items' = items @ [item] \<and>
      pf_position (perFaceBuffer item) =
        map (atlasFacePos (length items)) [0..<length (pf_position (perFaceBuffer item))])"
  by (auto simp: visitObject_def
      split: object3d.splits geometry.splits option.splits sum.splits
      dest: makeItem_position)

lemma traverse_ids:
  "traverse lm items h objs = (Inr items', objs') \<Longrightarrow> idsFrom items \<Longrightarrow> idsFrom items'"
proof (induction objs arbitrary: items h objs')
  case Nil
  then show ?case by simp
next
  case (Cons obj rest)
  from Cons.prems(1) obtain items1 obj1 rest' where
    v: "visitObject lm items h obj = Inr (items1, obj1)" and
    t: "traverse lm items1 (Suc h) rest = (Inr items', rest')"
    by (auto split: sum.splits prod.splits)
  have "idsFrom items1"
    using visitObject_items[OF v] Cons.prems(2)
    by (auto simp: idsFrom_def nth_append less_Suc_eq)
  then show ?case using Cons.IH[OF t] by simp
qed

lemma collectItems_ids:
  "fst (collectItems lm scene) = Inr items \<Longrightarrow> idsFrom items"
  unfolding collectItems_def using traverse_ids[of lm "[]" 0 scene items]
  by (cases "traverse lm [] 0 scene") (simp add: idsFrom_def)

lemma encodedIdAt_eq:
  assumes "encodedIdAt (fst (collectItems lm scene)) k v = Some e"
  shows "e = toFloat32 (k * MAX_ITEM_FACES + v div 3 + 1)"
proof -
  from assms obtain items where r: "fst (collectItems lm scene) = Inr items"
    and k: "k < length items"
    and v: "v < length (pf_position (perFaceBuffer (items ! k)))"
    and e: "e = snd (snd (pf_position (perFaceBuffer (items ! k)) ! v))"
    by (auto simp: encodedIdAt_def split: sum.splits if_splits)
  let ?n = "length (pf_position (perFaceBuffer (items ! k)))"
  have "pf_position (perFaceBuffer (items ! k)) = map (atlasFacePos k) [0..<?n]"
    using collectItems_ids[OF r] k by (simp add: idsFrom_def)
  then have "pf_position (perFaceBuffer (items ! k)) ! v = atlasFacePos k v"
    using v by (metis add_0 length_map nth_map nth_upt length_upt diff_zero)
  then show ?thesis using e by (simp add: atlasFacePos_id)
qed

lemma visit_plain_mesh:
  assumes "index geo = Some indexData"
    and "uv2 geo = Some (BufferAttribute ua us)"
    and "normal geo = Some (BufferAttribute na ns)"
    and "material_class m = MeshLambertMaterial \<or> material_class m = MeshPhongMaterial \<or>
         material_class m = MeshStandardMaterial"
    and "lightMap m = None \<or> lightMap m = Some lm"
  shows "visitObject lm items h (Mesh (BufferGeom geo) (SingleMaterial m)) =
     Inr (items @ [\<lparr> faceCount = real (length indexData) / 3,
                       perFaceBuffer = unrollBuffer (length items) indexData ua us na ns,
                       originalMesh = h, originalBuffer = geo \<rparr>],
          Mesh (BufferGeom geo) (SingleMaterial (m\<lparr>lightMap := Some lm\<rparr>)))"
  using assms by (auto simp: visitObject_def makeItem_def attachLightMap_def)

lemma collectItems_plain_mesh:
  assumes "index geo = Some indexData"
    and "uv2 geo = Some (BufferAttribute ua us)"
    and "normal geo = Some (BufferAttribute na ns)"
    and "material_class m = MeshLambertMaterial \<or> material_class m = MeshPhongMaterial \<or>
         material_class m = MeshStandardMaterial"
    and "lightMap m = None \<or> lightMap m = Some lm"
  shows "fst (collectItems lm [Mesh (BufferGeom geo) (SingleMaterial m)]) =
     Inr [\<lparr> faceCount = real (length indexData) / 3,
             perFaceBuffer = unrollBuffer 0 indexData ua us na ns,
             originalMesh = 0, originalBuffer = geo \<rparr>]"
  by (simp add: collectItems_def visit_plain_mesh[OF assms])

lemma stacked_length: "length (stackedIndex n) = 3 * n"
  by (simp add: stackedIndex_def length_concat sum_list_replicate)

lemma stacked_result:
  "fst (collectItems lm [Mesh (BufferGeom (stackedBuffer n)) (SingleMaterial lambert)]) =
     Inr [\<lparr> faceCount = real (3 * n) / 3,
             perFaceBuffer = unrollBuffer 0 (stackedIndex n)
                [0, 0, 1, 0, 0, 1] 2 [0, 0, 1, 0, 0, 1, 0, 0, 1] 3,
             originalMesh = 0, originalBuffer = stackedBuffer n \<rparr>]"
  using collectItems_plain_mesh[of "stackedBuffer n" "stackedIndex n"
      "[0, 0, 1, 0, 0, 1]" 2 "[0, 0, 1, 0, 0, 1, 0, 0, 1]" 3 lambert lm]
  by (simp add: stackedBuffer_def lambert_def stacked_length)

lemma stacked_id:
  "v < 3 * n \<Longrightarrow>
   encodedIdAt (fst (collectItems lm
      [Mesh (BufferGeom (stackedBuffer n)) (SingleMaterial lambert)])) 0 v =
     Some (toFloat32 (v div 3 + 1))"
  by (simp add: stacked_result encodedIdAt_def unrollBuffer_def stacked_length atlasFacePos_id)

lemma traverse_plain_meshes:
  assumes "index geo = Some indexData"
    and "uv2 geo = Some (BufferAttribute ua us)"
    and "normal geo = Some (BufferAttribute na ns)"
    and "material_class m = MeshLambertMaterial \<or> material_class m = MeshPhongMaterial \<or>
         material_class m = MeshStandardMaterial"
    and "lightMap m = None \<or> lightMap m = Some lm"
  shows "fst (traverse lm items h (replicate n (Mesh (BufferGeom geo) (SingleMaterial m)))) =
     Inr (items @ map (\<lambda>k. \<lparr> faceCount = real (length indexData) / 3,
                              perFaceBuffer = unrollBuffer (length items + k) indexData ua us na ns,
                              originalMesh = h + k, originalBuffer = geo \<rparr>) [0..<n])"
proof (induction n arbitrary: items h)
  case 0
  then show ?case by simp
next
  case (Suc n)
  let ?item = "\<lparr> faceCount = real (length indexData) / 3,
                   perFaceBuffer = unrollBuffer (length items) indexData ua us na ns,
                   originalMesh = h, originalBuffer = geo \<rparr>"
  have "fst (traverse lm items h (replicate (Suc n) (Mesh (BufferGeom geo) (SingleMaterial m)))) =
        fst (traverse lm (items @ [?item]) (Suc h)
               (replicate n (Mesh (BufferGeom geo) (SingleMaterial m))))"
    by (simp add: visit_plain_mesh[OF assms] split: prod.splits)
  then show ?case
    unfolding Suc.IH by (simp add: map_upt_Suc del: upt_Suc)
qed

lemma plain_meshes_id:
  assumes "index geo = Some indexData"
    and "uv2 geo = Some (BufferAttribute ua us)"
    and "normal geo = Some (BufferAttribute na ns)"
    and "material_class m = MeshLambertMaterial \<or> material_class m = MeshPhongMaterial \<or>
         material_class m = MeshStandardMaterial"
    and "lightMap m = None \<or> lightMap m = Some lm"
    and "k < n" and "v < length indexData"
  shows "encodedIdAt (fst (collectItems lm
            (replicate n (Mesh (BufferGeom geo) (SingleMaterial m))))) k v =
           Some (toFloat32 (k * MAX_ITEM_FACES + v div 3 + 1))"
  unfolding collectItems_def traverse_plain_meshes[OF assms(1-5)] using assms(6,7)
  by (simp add: encodedIdAt_def unrollBuffer_def atlasFacePos_id)

lemma quadRow_id:
  assumes "k < n" and "v < 6"
  shows "encodedIdAt (fst (collectItems lm (quadRow n))) k v =
           Some (toFloat32 (k * MAX_ITEM_FACES + v div 3 + 1))"
  unfolding quadRow_def
  by (rule plain_meshes_id[where indexData = "[0, 1, 2, 2, 1, 3]"
        and ua = "[0, 0, 1, 0, 0, 1, 1, 1]" and us = 2
        and na = "[0, 0, 1, 0, 0, 1, 0, 0, 1, 0, 0, 1]" and ns = 3])
     (use assms in \<open>simp_all add: quadBuffer_def lambert_def\<close>)

text \<open>
  C1, as the code has it.  The face index of un-indexed vertex \<open>faceVertexIndex\<close> is
  \<open>faceVertexIndex div 3\<close>, and the id computed for it is
  \<open>itemIndex * MAX_ITEM_FACES + faceVertexIndex div 3 + 1\<close>.  Whenever the face index is
  below \<open>MAX_ITEM_FACES\<close> and the id is at most \<open>2 ^ 24\<close>, the largest range of integers
  that float32 holds exactly, the id stored by a mapping pass is non-zero,
  \<open>(id - 1) mod MAX_ITEM_FACES\<close> is the face index and \<open>(id - 1) div MAX_ITEM_FACES\<close> is
  the item index.
\<close>

theorem encoded_face_id_round_trip:
  assumes "encodedIdAt (fst (collectItems lightMapTex scene)) itemIndex faceVertexIndex
             = Some encodedId"
    and "faceVertexIndex div 3 < MAX_ITEM_FACES"
    and "itemIndex * MAX_ITEM_FACES + faceVertexIndex div 3 + 1 \<le> 2 ^ 24"
  shows "encodedId \<noteq> 0 \<and>
         (encodedId - 1) mod MAX_ITEM_FACES = faceVertexIndex div 3 \<and>
         (encodedId - 1) div MAX_ITEM_FACES = itemIndex"
  using encodedIdAt_eq[OF assms(1)] assms(2) toFloat32_exact[OF assms(3)] by simp

theorem encoded_face_id_round_trip_witness:
  "encodedIdAt (fst (collectItems 7 quadScene)) 0 4 = Some 2 \<and>
   4 div 3 < MAX_ITEM_FACES \<and>
   0 * MAX_ITEM_FACES + 4 div 3 + 1 \<le> (2::nat) ^ 24 \<and>
   (2::nat) \<noteq> 0 \<and> (2 - 1) mod MAX_ITEM_FACES = 4 div 3 \<and> (2 - 1) div MAX_ITEM_FACES = 0"
proof -
  have h1: "encodedIdAt (fst (collectItems 7 quadScene)) 0 4 = Some 2"
    by code_simp
  have h2: "4 div 3 < MAX_ITEM_FACES"
    by (simp add: MAX_ITEM_FACES_def)
  have h3: "0 * MAX_ITEM_FACES + 4 div 3 + 1 \<le> (2::nat) ^ 24"
    by simp
  from encoded_face_id_round_trip[OF h1 h2 h3] h1 h2 h3 show ?thesis
    by simp
qed

text \<open>
  C1 as stated fails in two ways.  For a face index of \<open>MAX_ITEM_FACES\<close> or more: face
  1000 of item 0 in a mesh of 1001 triangles gets id 1001, which decodes to face 0 of item
  1.  For an id above \<open>2 ^ 24\<close>: in a scene of 16779 quads, face 0 of item 16778 has id
  16778001, which the attribute stores as 16778000, and that decodes to face 999 of item
  16777.
\<close>

theorem encoded_face_id_counterexample:
  "encodedIdAt (fst (collectItems 7
       [Mesh (BufferGeom (stackedBuffer 1001)) (SingleMaterial lambert)])) 0 3000 = Some 1001 \<and>
   (1001 - 1) mod MAX_ITEM_FACES \<noteq> 3000 div 3 \<and>
   (1001 - 1) div MAX_ITEM_FACES \<noteq> (0::nat) \<and>
   encodedIdAt (fst (collectItems 7 (quadRow 16779))) 16778 0 = Some 16778000 \<and>
   0 div 3 < MAX_ITEM_FACES \<and>
   (16778000 - 1) mod MAX_ITEM_FACES \<noteq> 0 div 3 \<and>
   (16778000 - 1) div MAX_ITEM_FACES \<noteq> (16778::nat)"
proof -
  have a: "toFloat32 1001 = 1001"
    by (simp add: toFloat32_small)
  have b: "toFloat32 16778001 = 16778000"
    by (simp add: toFloat32_def bitLength.simps)
  have c: "encodedIdAt (fst (collectItems 7 (quadRow 16779))) 16778 0 = Some 16778000"
    using quadRow_id[of 16778 16779 0 7] b by (simp add: MAX_ITEM_FACES_def)
  show ?thesis
    using stacked_id[of 3000 1001 7] a c by (simp add: MAX_ITEM_FACES_def)
qed

text \<open>
  C2, as the code has it.  The mapper has no limit on the face count: a mesh with plain
  index, uv2 and normal attributes and a single supported material is accepted with
  whatever number of index entries it has, and its \<open>faceCount\<close> is a third of that number.
\<close>

theorem face_count_not_limited:
  assumes "index geo = Some indexData"
    and "uv2 geo = Some (BufferAttribute ua us)"
    and "normal geo = Some (BufferAttribute na ns)"
    and "material_class m = MeshLambertMaterial \<or> material_class m = MeshPhongMaterial \<or>
         material_class m = MeshStandardMaterial"
    and "lightMap m = None \<or> lightMap m = Some lightMapTex"
  shows "map_sum id (map faceCount)
           (fst (collectItems lightMapTex [Mesh (BufferGeom geo) (SingleMaterial m)]))
         = Inr [real (length indexData) / 3]"
  by (simp add: collectItems_plain_mesh[OF assms])

text \<open>The mesh with exactly \<open>MAX_ITEM_FACES\<close> faces is accepted.\<close>

theorem face_count_not_limited_witness:
  "index (stackedBuffer MAX_ITEM_FACES) = Some (stackedIndex MAX_ITEM_FACES) \<and>
   uv2 (stackedBuffer MAX_ITEM_FACES) = Some (BufferAttribute [0, 0, 1, 0, 0, 1] 2) \<and>
   normal (stackedBuffer MAX_ITEM_FACES) = Some (BufferAttribute [0, 0, 1, 0, 0, 1, 0, 0, 1] 3) \<and>
   material_class lambert = MeshLambertMaterial \<and>
   lightMap lambert = None \<and>
   map_sum id (map faceCount)
     (fst (collectItems 7 [Mesh (BufferGeom (stackedBuffer MAX_ITEM_FACES)) (SingleMaterial lambert)]))
     = Inr [1000]"
proof -
  have h1: "index (stackedBuffer MAX_ITEM_FACES) = Some (stackedIndex MAX_ITEM_FACES)"
    and h2: "uv2 (stackedBuffer MAX_ITEM_FACES) = Some (BufferAttribute [0, 0, 1, 0, 0, 1] 2)"
    and h3: "normal (stackedBuffer MAX_ITEM_FACES) =
               Some (BufferAttribute [0, 0, 1, 0, 0, 1, 0, 0, 1] 3)"
    by (simp_all add: stackedBuffer_def)
  have h4: "material_class lambert = MeshLambertMaterial \<or>
            material_class lambert = MeshPhongMaterial \<or>
            material_class lambert = MeshStandardMaterial"
    and h5: "lightMap lambert = None \<or> lightMap lambert = Some 7"
    by (simp_all add: lambert_def)
  have "real (length (stackedIndex MAX_ITEM_FACES)) / 3 = 1000"
    by (simp add: stacked_length MAX_ITEM_FACES_def)
  with face_count_not_limited[OF h1 h2 h3 h4 h5] h1 h2 h3 show ?thesis
    by (simp add: lambert_def)
qed

text \<open>
  C2 as stated fails: a mesh with \<open>MAX_ITEM_FACES + 1\<close> faces passes the mapper, which
  returns its item with a face count of 1001.
\<close>

theorem capacity_exceeded_counterexample:
  "map_sum id (map faceCount) (fst (collectItems 7
       [Mesh (BufferGeom (stackedBuffer (MAX_ITEM_FACES + 1))) (SingleMaterial lambert)]))
     = Inr [1001]"
  by (simp add: stacked_result MAX_ITEM_FACES_def)

lemma visit_bad_mesh:
  assumes "uv2 geo \<noteq> None" and "index geo = None \<or> normal geo = None"
  shows "isl (visitObject lm items h (Mesh (BufferGeom geo) mat))"
  using assms
  by (auto simp: visitObject_def makeItem_def split: option.splits attribute.splits)

lemma traverse_abort:
  assumes "\<And>items h. isl (visitObject lm items h obj)"
  shows "isl (fst (traverse lm items h (before @ obj # rest)))"
proof (induction before arbitrary: items h)
  case Nil
  from assms[of items h] show ?case
    by (auto simp: isl_def)
next
  case (Cons b before)
  show ?case
  proof (cases "visitObject lm items h b")
    case (Inl e)
    then show ?thesis by simp
  next
    case (Inr p)
    obtain items1 b1 where p: "p = (items1, b1)" by (cases p)
    from Cons.IH[of items1 "Suc h"] Inr p show ?thesis
      by (auto split: prod.splits)
  qed
qed

text \<open>
  C8, as the code has it.  A mesh that has a \<^verbatim>\<open>uv2\<close> attribute but no index buffer or
  no normal attribute makes the pass end in an error, wherever the mesh stands in the
  scene, so no item list is produced.  A mesh without a \<^verbatim>\<open>uv2\<close> attribute raises
  nothing: the callback leaves the item list and the mesh as they are.
\<close>

theorem missing_index_or_normal_aborts:
  "(uv2 geo \<noteq> None \<and> (index geo = None \<or> normal geo = None) \<longrightarrow>
      isl (fst (collectItems lightMapTex (before @ Mesh (BufferGeom geo) mat # rest)))) \<and>
   (uv2 geo = None \<longrightarrow>
      visitObject lightMapTex items h (Mesh (BufferGeom geo) mat) =
        Inr (items, Mesh (BufferGeom geo) mat))"
proof (intro conjI impI)
  assume a: "uv2 geo \<noteq> None \<and> (index geo = None \<or> normal geo = None)"
  then have "\<And>items h. isl (visitObject lightMapTex items h (Mesh (BufferGeom geo) mat))"
    by (simp add: visit_bad_mesh)
  then show "isl (fst (collectItems lightMapTex (before @ Mesh (BufferGeom geo) mat # rest)))"
    unfolding collectItems_def by (rule traverse_abort)
next
  assume "uv2 geo = None"
  then show "visitObject lightMapTex items h (Mesh (BufferGeom geo) mat) =
        Inr (items, Mesh (BufferGeom geo) mat)"
    by (simp add: visitObject_def)
qed

theorem missing_index_or_normal_aborts_witness:
  "uv2 unindexedBuffer \<noteq> None \<and> index unindexedBuffer = None \<and>
   isl (fst (collectItems 7
          (quadScene @ Mesh (BufferGeom unindexedBuffer) (SingleMaterial lambert) # [Group]))) \<and>
   uv2 bareBuffer = None \<and>
   visitObject 7 [] 0 (Mesh (BufferGeom bareBuffer) (SingleMaterial lambert)) =
     Inr ([], Mesh (BufferGeom bareBuffer) (SingleMaterial lambert))"
proof -
  have h1: "uv2 unindexedBuffer \<noteq> None \<and>
            (index unindexedBuffer = None \<or> normal unindexedBuffer = None)"
    by (simp add: unindexedBuffer_def)
  have h2: "uv2 bareBuffer = None"
    by (simp add: bareBuffer_def)
  from missing_index_or_normal_aborts[where geo = unindexedBuffer and lightMapTex = 7
      and before = quadScene and mat = "SingleMaterial lambert" and rest = "[Group]"] h1
  have c1: "isl (fst (collectItems 7
          (quadScene @ Mesh (BufferGeom unindexedBuffer) (SingleMaterial lambert) # [Group])))"
    by blast
  from missing_index_or_normal_aborts[where geo = bareBuffer and lightMapTex = 7
      and mat = "SingleMaterial lambert" and items = "[]" and h = 0] h2
  have c2: "visitObject 7 [] 0 (Mesh (BufferGeom bareBuffer) (SingleMaterial lambert)) =
     Inr ([], Mesh (BufferGeom bareBuffer) (SingleMaterial lambert))"
    by blast
  from h1 h2 c1 c2 show ?thesis
    by (simp add: unindexedBuffer_def)
qed

text \<open>
  C8 as stated fails for the missing \<^verbatim>\<open>uv2\<close> attribute: a scene whose only mesh has
  no attributes at all is mapped without error, to an empty item list.
\<close>

theorem missing_uv2_counterexample:
  "collectItems 7 [Mesh (BufferGeom bareBuffer) (SingleMaterial lambert)] =
     (Inr [], [Mesh (BufferGeom bareBuffer) (SingleMaterial lambert)])"
  by (simp add: collectItems_def visitObject_def bareBuffer_def)

section \<open>Properties of the progressive renderer\<close>

lemma jsRem_pos: "0 < b \<Longrightarrow> jsRem (Some n) b = Some (n mod nat b)"
  by (simp add: jsRem_def)

lemma nextFillCount_Some:
  assumes "pixelFillCount f = Some t" and "0 < faceTexelRows f * faceTexelCols f"
  shows "nextFillCount f = Some (Suc t mod faceTexels f)"
  using assms by (simp add: nextFillCount_def faceTexels_def jsRem_pos)

lemma typedArraySet_fits:
  assumes "slotFits (length d) f"
  shows "\<exists>d'. typedArraySet d [a, b, c] (texelOffset f) = Inr d' \<and> length d' = length d"
proof (cases "texelOffset f")
  case None
  with assms show ?thesis by (simp add: typedArraySet_def slotFits_def)
next
  case (Some k)
  with assms have "0 \<le> k" "k + 3 \<le> int (length d)" by (simp_all add: slotFits_def)
  then show ?thesis using Some by (simp add: typedArraySet_def Let_def)
qed

lemma promote_list_all: "list_all P xs \<Longrightarrow> list_all P (promote xs)"
  by (cases xs rule: rev_cases) (simp_all add: promote_def)

lemma promote_nonempty: "xs \<noteq> [] \<Longrightarrow> promote xs \<noteq> []"
  by (simp add: promote_def)

lemma faceFits_fill [simp]: "faceFits len (f\<lparr>pixelFillCount := x\<rparr>) = faceFits len f"
  by (simp add: faceFits_def faceTexels_def faceTexelRows_def faceTexelCols_def
      itemSizeU_def itemSizeV_def)

lemma faceTexels_fill [simp]: "faceTexels (f\<lparr>pixelFillCount := x\<rparr>) = faceTexels f"
  by (simp add: faceTexels_def faceTexelRows_def faceTexelCols_def itemSizeU_def itemSizeV_def)

lemma list_all_faceFits_update:
  "i < length infos \<Longrightarrow>
   list_all (faceFits len) (infos[i := (infos ! i)\<lparr>pixelFillCount := x\<rparr>]) =
   list_all (faceFits len) infos"
  by (auto simp: list_all_length nth_list_update)

lemma stackFits_update:
  "i < length infos \<Longrightarrow>
   stackFits (infos[i := (infos ! i)\<lparr>pixelFillCount := x\<rparr>]) stack = stackFits infos stack"
  by (simp add: stackFits_def list_all_faceFits_update)

lemma stackFits_written:
  assumes "stackFits infos (first # others)" and "length d' = length (data first)"
  shows "stackFits infos (\<lparr>data = d', needsUpdate = True\<rparr> # others)"
    and "stackFits infos (promote (\<lparr>data = d', needsUpdate = True\<rparr> # others))"
proof -
  show a: "stackFits infos (\<lparr>data = d', needsUpdate = True\<rparr> # others)"
    using assms by (simp add: stackFits_def)
  then show "stackFits infos (promote (\<lparr>data = d', needsUpdate = True\<rparr> # others))"
    unfolding stackFits_def using promote_list_all promote_nonempty by blast
qed

lemma tick_step:
  assumes i: "atlasFaceFillIndex s = i" "i < length (atlasInfo s)"
    and t: "pixelFillCount (atlasInfo s ! i) = Some t"
    and sf: "stackFits (atlasInfo s) (atlasStack s)"
    and tc: "t < faceTexels (atlasInfo s ! i)"
  shows "\<exists>s'. tick inp s = Inr s' \<and>
      atlasInfo s' = (atlasInfo s)[i := (atlasInfo s ! i)
                        \<lparr>pixelFillCount := Some (Suc t mod faceTexels (atlasInfo s ! i))\<rparr>] \<and>
      atlasFaceFillIndex s' =
        (if Suc t mod faceTexels (atlasInfo s ! i) = 0 then Suc i mod length (atlasInfo s) else i) \<and>
      stackFits (atlasInfo s') (atlasStack s')"
proof -
  let ?f = "atlasInfo s ! i"
  from sf obtain first others where st: "atlasStack s = first # others"
    by (cases "atlasStack s") (simp_all add: stackFits_def)
  from sf st i have ff: "faceFits (length (data first)) ?f"
    by (simp add: stackFits_def list_all_iff)
  then have pos: "0 < faceTexelRows ?f * faceTexelCols ?f" by (simp add: faceFits_def)
  have eq: "?f\<lparr>pixelFillCount := Some t\<rparr> = ?f" using t by simp
  from ff tc have "slotFits (length (data first)) (?f\<lparr>pixelFillCount := Some t\<rparr>)"
    by (simp add: faceFits_def list_all_iff)
  then have fit: "slotFits (length (data first)) ?f"
    by (simp only: eq)
  obtain ar ag ab where av:
    "averageProbe (map (readback inp) [0..<probeTargetSize * probeTargetSize * 4]) = (ar, ag, ab)"
    by (cases "averageProbe (map (readback inp) [0..<probeTargetSize * probeTargetSize * 4])")
  from typedArraySet_fits[OF fit, of ar ag ab] obtain d' where
    d: "typedArraySet (data first) [ar, ag, ab] (texelOffset ?f) = Inr d'"
    and ld: "length d' = length (data first)" by blast
  have ne: "atlasInfo s \<noteq> []" using i by auto
  have nf: "nextFillCount ?f = Some (Suc t mod faceTexels ?f)"
    by (rule nextFillCount_Some[OF t pos])
  from sf st have sf': "stackFits (atlasInfo s) (first # others)" by simp
  show ?thesis
    using i ne st av d nf stackFits_written[OF sf' ld]
    by (simp add: tick_def Let_def stackFits_update)
qed

lemma ticks_append:
  "ticks (xs @ ys) s = (case ticks xs s of Inl e \<Rightarrow> Inl e | Inr s' \<Rightarrow> ticks ys s')"
  by (induction xs arbitrary: s) (auto split: sum.splits)

lemma visited_append:
  "ticks xs s = Inr s' \<Longrightarrow> visited (xs @ ys) s = visited xs s @ visited ys s'"
  by (induction xs arbitrary: s) (auto split: sum.splits)

lemma cursor_at:
  "atlasFaceFillIndex s = i \<Longrightarrow> i < length (atlasInfo s) \<Longrightarrow>
   pixelFillCount (atlasInfo s ! i) = Some t \<Longrightarrow> cursor s = (i, Some t)"
  by (simp add: cursor_def)

lemma finish_face:
  assumes "atlasFaceFillIndex s = i" "i < length (atlasInfo s)"
    and "pixelFillCount (atlasInfo s ! i) = Some t"
    and "stackFits (atlasInfo s) (atlasStack s)"
    and "t < faceTexels (atlasInfo s ! i)"
    and "length inps = faceTexels (atlasInfo s ! i) - t"
  shows "\<exists>s'. ticks inps s = Inr s' \<and>
      atlasInfo s' = (atlasInfo s)[i := (atlasInfo s ! i)\<lparr>pixelFillCount := Some 0\<rparr>] \<and>
      atlasFaceFillIndex s' = Suc i mod length (atlasInfo s) \<and>
      stackFits (atlasInfo s') (atlasStack s') \<and>
      visited inps s = map (\<lambda>t. (i, Some t)) [t..<faceTexels (atlasInfo s ! i)]"
  using assms
proof (induction inps arbitrary: s t)
  case Nil
  then show ?case by simp
next
  case (Cons inp inps)
  let ?f = "atlasInfo s ! i"
  let ?c = "faceTexels ?f"
  from tick_step[OF Cons.prems(1-5), of inp] obtain s1 where
    tk: "tick inp s = Inr s1"
    and info1: "atlasInfo s1 = (atlasInfo s)[i := ?f\<lparr>pixelFillCount := Some (Suc t mod ?c)\<rparr>]"
    and idx1: "atlasFaceFillIndex s1 = (if Suc t mod ?c = 0 then Suc i mod length (atlasInfo s) else i)"
    and sf1: "stackFits (atlasInfo s1) (atlasStack s1)"
    by blast
  have cur: "cursor s = (i, Some t)"
    by (rule cursor_at[OF Cons.prems(1-3)])
  show ?case
  proof (cases "Suc t = ?c")
    case True
    have "length (inp # inps) = Suc t - t"
      using Cons.prems(6) unfolding True[symmetric] .
    then have "inps = []" by simp
    moreover have "Suc t mod ?c = 0" using True by simp
    moreover have "[t..<?c] = [t]" using True by (metis upt_rec lessI upt_conv_Nil order_refl)
    ultimately show ?thesis using tk info1 idx1 sf1 cur by simp
  next
    case False
    with Cons.prems(5) have lt: "Suc t < ?c" by simp
    then have m: "Suc t mod ?c = Suc t" by simp
    have len1: "length (atlasInfo s1) = length (atlasInfo s)" using info1 by simp
    have f1: "atlasInfo s1 ! i = ?f\<lparr>pixelFillCount := Some (Suc t)\<rparr>"
      using info1 m Cons.prems(2) by simp
    have p1: "atlasFaceFillIndex s1 = i" using idx1 m by simp
    have p2: "i < length (atlasInfo s1)" using len1 Cons.prems(2) by simp
    have p3: "pixelFillCount (atlasInfo s1 ! i) = Some (Suc t)" using f1 by simp
    have p5: "Suc t < faceTexels (atlasInfo s1 ! i)" using f1 lt by simp
    have p6: "length inps = faceTexels (atlasInfo s1 ! i) - Suc t"
      using f1 Cons.prems(6) by simp
    from Cons.IH[OF p1 p2 p3 sf1 p5 p6] obtain s' where
      r: "ticks inps s1 = Inr s'"
      and ri: "atlasInfo s' = (atlasInfo s1)[i := (atlasInfo s1 ! i)\<lparr>pixelFillCount := Some 0\<rparr>]"
      and rx: "atlasFaceFillIndex s' = Suc i mod length (atlasInfo s1)"
      and rs: "stackFits (atlasInfo s') (atlasStack s')"
      and rv: "visited inps s1 = map (\<lambda>t. (i, Some t)) [Suc t..<faceTexels (atlasInfo s1 ! i)]"
      by blast
    have "[t..<?c] = t # [Suc t..<?c]" using lt by (simp add: upt_conv_Cons)
    then show ?thesis
      using tk r ri rx rs rv cur f1 len1 info1 by simp
  qed
qed

lemma run_faces:
  assumes "atlasFaceFillIndex s = i" "i < m" "m \<le> length (atlasInfo s)"
    and "list_all (\<lambda>f. pixelFillCount f = Some 0) (atlasInfo s)"
    and "stackFits (atlasInfo s) (atlasStack s)"
    and "length inps = sum_list (map (\<lambda>j. faceTexels (atlasInfo s ! j)) [i..<m])"
  shows "\<exists>s'. ticks inps s = Inr s' \<and>
      atlasInfo s' = atlasInfo s \<and>
      atlasFaceFillIndex s' = m mod length (atlasInfo s) \<and>
      stackFits (atlasInfo s') (atlasStack s') \<and>
      visited inps s = faceVisits (atlasInfo s) [i..<m]"
  using assms
proof (induction "m - i" arbitrary: i s inps)
  case 0
  then show ?case by simp
next
  case (Suc k)
  let ?f = "atlasInfo s ! i"
  let ?c = "faceTexels ?f"
  have il: "i < length (atlasInfo s)" using Suc.prems(2,3) by simp
  have z: "pixelFillCount ?f = Some 0" using Suc.prems(4) il by (simp add: list_all_length)
  from Suc.prems(5) obtain first where "first \<in> set (atlasStack s)"
    "list_all (faceFits (length (data first))) (atlasInfo s)"
    by (cases "atlasStack s") (auto simp: stackFits_def)
  then have "faceFits (length (data first)) ?f" using il by (simp add: list_all_length)
  then have cpos: "0 < ?c" by (simp add: faceFits_def faceTexels_def)
  have up: "[i..<m] = i # [Suc i..<m]" using Suc.prems(2) by (simp add: upt_conv_Cons)
  let ?xs = "take ?c inps" and ?ys = "drop ?c inps"
  have lx: "length ?xs = ?c - 0" using Suc.prems(6) up by simp
  have ly: "length ?ys = sum_list (map (\<lambda>j. faceTexels (atlasInfo s ! j)) [Suc i..<m])"
    using Suc.prems(6) up by simp
  from finish_face[OF Suc.prems(1) il z Suc.prems(5) cpos lx] obtain s1 where
    r: "ticks ?xs s = Inr s1"
    and ri: "atlasInfo s1 = (atlasInfo s)[i := ?f\<lparr>pixelFillCount := Some 0\<rparr>]"
    and rx: "atlasFaceFillIndex s1 = Suc i mod length (atlasInfo s)"
    and rs: "stackFits (atlasInfo s1) (atlasStack s1)"
    and rv: "visited ?xs s = map (\<lambda>t. (i, Some t)) [0..<?c]"
    by blast
  have "?f\<lparr>pixelFillCount := Some 0\<rparr> = ?f" using z by simp
  then have same: "atlasInfo s1 = atlasInfo s" using ri by simp
  have split: "inps = ?xs @ ?ys" by simp
  show ?case
  proof (cases "Suc i = m")
    case True
    then have "?ys = []" using ly by simp
    then have "inps = ?xs" by simp
    moreover have "[i..<m] = [i]" using True up by simp
    ultimately show ?thesis using r same rx rs rv True
      by (simp add: faceVisits_def)
  next
    case False
    then have lt: "Suc i < m" using Suc.prems(2) by simp
    then have "Suc i < length (atlasInfo s)" using Suc.prems(3) by simp
    then have q1: "atlasFaceFillIndex s1 = Suc i" using rx by simp
    have q0: "k = m - Suc i" using Suc.hyps(2) by simp
    have q3: "m \<le> length (atlasInfo s1)" using same Suc.prems(3) by simp
    have q4: "list_all (\<lambda>f. pixelFillCount f = Some 0) (atlasInfo s1)"
      using same Suc.prems(4) by simp
    have q6: "length ?ys = sum_list (map (\<lambda>j. faceTexels (atlasInfo s1 ! j)) [Suc i..<m])"
      using ly same by simp
    from Suc.hyps(1)[OF q0 q1 lt q3 q4 rs q6] obtain s' where
      t: "ticks ?ys s1 = Inr s'"
      and ti: "atlasInfo s' = atlasInfo s1"
      and tx: "atlasFaceFillIndex s' = m mod length (atlasInfo s1)"
      and ts: "stackFits (atlasInfo s') (atlasStack s')"
      and tv: "visited ?ys s1 = faceVisits (atlasInfo s1) [Suc i..<m]"
      by blast
    have "ticks inps s = Inr s'"
      using ticks_append[of ?xs ?ys s] r t by simp
    moreover have "visited inps s = faceVisits (atlasInfo s) [i..<m]"
      using visited_append[OF r, of ?ys] rv tv same up by (simp add: faceVisits_def)
    ultimately show ?thesis using ti tx ts same by simp
  qed
qed

lemma set_faceVisits:
  "set (faceVisits infos faces) =
     {(j, Some t) | j t. j \<in> set faces \<and> t < faceTexels (infos ! j)}"
  by (auto simp: faceVisits_def)

lemma faceVisits_Cons:
  "faceVisits infos (j # js) =
     map (\<lambda>t. (j, Some t)) [0..<faceTexels (infos ! j)] @ faceVisits infos js"
  by (simp add: faceVisits_def)

lemma faceVisits_append:
  "faceVisits infos (xs @ ys) = faceVisits infos xs @ faceVisits infos ys"
  by (simp add: faceVisits_def)

lemma distinct_faceVisits:
  "distinct faces \<Longrightarrow> distinct (faceVisits infos faces)"
proof (induction faces)
  case Nil
  then show ?case by (simp add: faceVisits_def)
next
  case (Cons j js)
  have "distinct (map (\<lambda>t. (j, Some t)) [0..<faceTexels (infos ! j)])"
    by (simp add: distinct_map inj_on_def)
  moreover have "set (map (\<lambda>t. (j, Some t)) [0..<faceTexels (infos ! j)]) \<inter>
                 set (faceVisits infos js) = {}"
    using Cons.prems by (auto simp: set_faceVisits)
  ultimately show ?case using Cons by (simp add: faceVisits_Cons)
qed

lemma sum_split_at:
  fixes f :: "'a \<Rightarrow> nat"
  assumes "k \<le> length xs"
  shows "sum_list (map f xs) =
         sum_list (map (\<lambda>j. f (xs ! j)) [k..<length xs]) +
         sum_list (map (\<lambda>j. f (xs ! j)) [0..<k])"
proof -
  have "map (\<lambda>j. f (xs ! j)) [0..<length xs] = map f (map (\<lambda>j. xs ! j) [0..<length xs])"
    by (simp add: comp_def)
  then have "map f xs = map (\<lambda>j. f (xs ! j)) [0..<length xs]"
    by (simp only: map_nth)
  moreover have "[0..<length xs] = [0..<k] @ [k..<length xs]"
    using upt_add_eq_append[of 0 k "length xs - k"] assms by simp
  ultimately show ?thesis by simp
qed

lemma full_pass:
  assumes ps: "passStart s"
    and len: "length inps = sum_list (map faceTexels (atlasInfo s))"
  shows "\<exists>s'. ticks inps s = Inr s' \<and> passStart s' \<and> atlasInfo s' = atlasInfo s \<and>
      visited inps s = faceVisits (atlasInfo s) ([4..<length (atlasInfo s)] @ [0..<4])"
proof -
  let ?n = "length (atlasInfo s)"
  let ?B = "sum_list (map (\<lambda>j. faceTexels (atlasInfo s ! j)) [4..<?n])"
  let ?xs = "take ?B inps" and ?ys = "drop ?B inps"
  from ps have n: "4 < ?n" and i4: "atlasFaceFillIndex s = 4"
    and z: "list_all (\<lambda>f. pixelFillCount f = Some 0) (atlasInfo s)"
    and sf: "stackFits (atlasInfo s) (atlasStack s)"
    by (simp_all add: passStart_def)
  have tot: "length inps = ?B + sum_list (map (\<lambda>j. faceTexels (atlasInfo s ! j)) [0..<4])"
    using len sum_split_at[of 4 "atlasInfo s" faceTexels] n by simp
  have lx: "length ?xs = ?B" using tot by simp
  from run_faces[OF i4 n order_refl z sf lx] obtain s1 where
    r: "ticks ?xs s = Inr s1"
    and ri: "atlasInfo s1 = atlasInfo s"
    and rx: "atlasFaceFillIndex s1 = ?n mod ?n"
    and rs: "stackFits (atlasInfo s1) (atlasStack s1)"
    and rv: "visited ?xs s = faceVisits (atlasInfo s) [4..<?n]"
    by blast
  have q1: "atlasFaceFillIndex s1 = 0" using rx by simp
  have q3: "4 \<le> length (atlasInfo s1)" using ri n by simp
  have q4: "list_all (\<lambda>f. pixelFillCount f = Some 0) (atlasInfo s1)" using ri z by simp
  have q6: "length ?ys = sum_list (map (\<lambda>j. faceTexels (atlasInfo s1 ! j)) [0..<4])"
    using tot ri by simp
  from run_faces[OF q1 _ q3 q4 rs q6] obtain s' where
    t: "ticks ?ys s1 = Inr s'"
    and ti: "atlasInfo s' = atlasInfo s1"
    and tx: "atlasFaceFillIndex s' = 4 mod length (atlasInfo s1)"
    and ts: "stackFits (atlasInfo s') (atlasStack s')"
    and tv: "visited ?ys s1 = faceVisits (atlasInfo s1) [0..<4]"
    by auto
  have "ticks inps s = Inr s'"
    using ticks_append[of ?xs ?ys s] r t by simp
  moreover have "visited inps s = faceVisits (atlasInfo s) ([4..<?n] @ [0..<4])"
    using visited_append[OF r, of ?ys] rv tv ri by (simp add: faceVisits_append)
  moreover have "passStart s'"
    using ti ri tx ts n z by (simp add: passStart_def)
  ultimately show ?thesis using ti ri by simp
qed

lemma upt4: "[4 * m..<4 * (m + Suc n)] =
    4 * m # (4 * m + 1) # (4 * m + 2) # (4 * m + 3) # [4 * (m + 1)..<4 * (m + Suc n)]"
proof -
  have e: "4 * (m + 1) = Suc (Suc (Suc (Suc (4 * m))))" by simp
  show ?thesis unfolding e by (simp add: upt_conv_Cons)
qed

lemma sumProbe_map:
  "sumProbe (map rb [4 * m..<4 * (m + n)]) (r, g, b) =
     (r + (\<Sum>k = m..<m + n. unat (rb (4 * k))),
      g + (\<Sum>k = m..<m + n. unat (rb (4 * k + 1))),
      b + (\<Sum>k = m..<m + n. unat (rb (4 * k + 2))))"
proof (induction n arbitrary: m r g b)
  case 0
  then show ?case by simp
next
  case (Suc n)
  have "sumProbe (map rb [4 * m..<4 * (m + Suc n)]) (r, g, b) =
        sumProbe (map rb [4 * (m + 1)..<4 * ((m + 1) + n)])
          (r + unat (rb (4 * m)), g + unat (rb (4 * m + 1)), b + unat (rb (4 * m + 2)))"
    by (simp only: upt4 list.map sumProbe.simps) simp
  also have "\<dots> = (r + unat (rb (4 * m)) + (\<Sum>k = m + 1..<m + 1 + n. unat (rb (4 * k))),
      g + unat (rb (4 * m + 1)) + (\<Sum>k = m + 1..<m + 1 + n. unat (rb (4 * k + 1))),
      b + unat (rb (4 * m + 2)) + (\<Sum>k = m + 1..<m + 1 + n. unat (rb (4 * k + 2))))"
    by (rule Suc.IH)
  also have "\<dots> = (r + (\<Sum>k = m..<m + Suc n. unat (rb (4 * k))),
      g + (\<Sum>k = m..<m + Suc n. unat (rb (4 * k + 1))),
      b + (\<Sum>k = m..<m + Suc n. unat (rb (4 * k + 2))))"
    by (simp add: sum.atLeast_Suc_lessThan add.assoc)
  finally show ?case .
qed

lemma averageProbe_mean:
  "averageProbe (map rb [0..<probeTargetSize * probeTargetSize * 4]) =
     (mathRound (channelMean rb 0), mathRound (channelMean rb 1), mathRound (channelMean rb 2))"
proof -
  let ?n = "probeTargetSize * probeTargetSize"
  have "sumProbe (map rb [4 * 0..<4 * (0 + ?n)]) (0, 0, 0) =
     (0 + (\<Sum>k = 0..<0 + ?n. unat (rb (4 * k))),
      0 + (\<Sum>k = 0..<0 + ?n. unat (rb (4 * k + 1))),
      0 + (\<Sum>k = 0..<0 + ?n. unat (rb (4 * k + 2))))"
    by (rule sumProbe_map)
  then have "sumProbe (map rb [0..<?n * 4]) (0, 0, 0) =
     ((\<Sum>k < ?n. unat (rb (4 * k))),
      (\<Sum>k < ?n. unat (rb (4 * k + 1))),
      (\<Sum>k < ?n. unat (rb (4 * k + 2))))"
    by (simp add: mult.commute atLeast0LessThan)
  then show ?thesis
    by (simp add: averageProbe_def channelMean_def Let_def)
qed

lemma set3:
  assumes "off + 3 \<le> length d"
  shows "take off d @ [a, b, c] @ drop (off + 3) d = d[off := a, off + 1 := b, off + 2 := c]"
proof (rule nth_equalityI)
  show "length (take off d @ [a, b, c] @ drop (off + 3) d) =
        length (d[off := a, off + 1 := b, off + 2 := c])"
    using assms by simp
next
  fix i
  assume "i < length (take off d @ [a, b, c] @ drop (off + 3) d)"
  then have il: "i < length d" using assms by simp
  consider "i < off" | "i = off" | "i = off + 1" | "i = off + 2" | "off + 3 \<le> i"
    by linarith
  then show "(take off d @ [a, b, c] @ drop (off + 3) d) ! i =
             d[off := a, off + 1 := b, off + 2 := c] ! i"
  proof cases
    case 1
    then show ?thesis using assms by (simp add: nth_append)
  next
    case 2
    then show ?thesis using assms by (simp add: nth_append)
  next
    case 3
    then show ?thesis using assms by (simp add: nth_append)
  next
    case 4
    then show ?thesis using assms by (simp add: nth_append)
  next
    case 5
    then obtain j where j: "i = off + 3 + j" using le_Suc_ex by blast
    then show ?thesis using assms il by (simp add: nth_append)
  qed
qed

lemma length_createAtlasTexture [simp]:
  "length (data (createAtlasTexture w h p)) = 3 * (w * h)"
  by (simp add: createAtlasTexture_def length_concat comp_def Let_def sum_list_triv)

lemma geom_fill [simp]:
  "faceTexelCols (f\<lparr>pixelFillCount := x\<rparr>) = faceTexelCols f"
  "faceTexelRows (f\<lparr>pixelFillCount := x\<rparr>) = faceTexelRows f"
  "atlasTexelLeft (f\<lparr>pixelFillCount := x\<rparr>) = atlasTexelLeft f"
  "atlasTexelTop (f\<lparr>pixelFillCount := x\<rparr>) = atlasTexelTop f"
  by (simp_all add: faceTexelCols_def faceTexelRows_def itemSizeU_def itemSizeV_def
      atlasTexelLeft_def atlasTexelTop_def)

lemma fill_geom [simp]:
  "itemSizeU (f\<lparr>pixelFillCount := x\<rparr>) = itemSizeU f"
  "itemSizeV (f\<lparr>pixelFillCount := x\<rparr>) = itemSizeV f"
  "buffer (f\<lparr>pixelFillCount := x\<rparr>) = buffer f"
  "faceIndex (f\<lparr>pixelFillCount := x\<rparr>) = faceIndex f"
  by (simp_all add: itemSizeU_def itemSizeV_def)

lemma typedArraySet_slot:
  assumes "slotFits (length d) f"
  shows "typedArraySet d [a, b, c] (texelOffset f) =
           Inr (d[slotOf f := word_of_int a, slotOf f + 1 := word_of_int b,
                  slotOf f + 2 := word_of_int c])"
    and "slotOf f + 3 \<le> length d"
proof -
  let ?k = "case texelOffset f of None \<Rightarrow> 0 | Some k \<Rightarrow> k"
  from assms have k: "0 \<le> ?k" "?k + 3 \<le> int (length d)"
    by (auto simp: slotFits_def split: option.splits)
  then show le: "slotOf f + 3 \<le> length d" by (simp add: slotOf_def)
  have "typedArraySet d [a, b, c] (texelOffset f) =
        Inr (take (slotOf f) d @ [word_of_int a, word_of_int b, word_of_int c] @
             drop (slotOf f + 3) d)"
    using k by (simp add: typedArraySet_def slotOf_def Let_def eval_nat_numeral)
  then show "typedArraySet d [a, b, c] (texelOffset f) =
           Inr (d[slotOf f := word_of_int a, slotOf f + 1 := word_of_int b,
                  slotOf f + 2 := word_of_int c])"
    using set3[OF le] by simp
qed

lemma length_writeSlot [simp]: "length (writeSlot inp d off) = length d"
  by (simp add: writeSlot_def)

lemma tick_result:
  assumes i: "atlasFaceFillIndex s < length (atlasInfo s)"
    and st: "atlasStack s = first # others"
    and fit: "slotFits (length (data first)) (atlasInfo s ! atlasFaceFillIndex s)"
  shows "tick inp s = Inr
     \<lparr> atlasInfo = (atlasInfo s)[atlasFaceFillIndex s := (atlasInfo s ! atlasFaceFillIndex s)
                      \<lparr>pixelFillCount := nextFillCount (atlasInfo s ! atlasFaceFillIndex s)\<rparr>],
       atlasStack =
         (if nextFillCount (atlasInfo s ! atlasFaceFillIndex s) = Some 0 \<and>
             Suc (atlasFaceFillIndex s) mod length (atlasInfo s) = 4
          then promote else id)
           (\<lparr> data = writeSlot inp (data first) (slotOf (atlasInfo s ! atlasFaceFillIndex s)),
              needsUpdate = True \<rparr> # others),
       atlasFaceFillIndex =
         (if nextFillCount (atlasInfo s ! atlasFaceFillIndex s) = Some 0
          then Suc (atlasFaceFillIndex s) mod length (atlasInfo s)
          else atlasFaceFillIndex s),
       probeCam = probeFor (atlasInfo s ! atlasFaceFillIndex s) (rnd inp),
       probeData = map (readback inp) [0..<probeTargetSize * probeTargetSize * 4],
       probeDebugNeedsUpdate = True \<rparr>"
proof -
  have ne: "atlasInfo s \<noteq> []" using i by auto
  show ?thesis
    using i ne st typedArraySet_slot(1)[OF fit]
    by (simp add: tick_def Let_def averageProbe_mean writeSlot_def)
qed

lemma channelMean_bounds:
  "0 \<le> mathRound (channelMean rb c)" "mathRound (channelMean rb c) \<le> 255"
proof -
  let ?n = "probeTargetSize * probeTargetSize"
  have n: "0 < ?n" by (simp add: probeTargetSize_def)
  have "(\<Sum>k < ?n. unat (rb (4 * k + c))) \<le> (\<Sum>k < ?n. 255)"
  proof (rule sum_mono)
    fix k
    have "unat (rb (4 * k + c)) < 2 ^ 8" using unsigned_less[of "rb (4 * k + c)"] by simp
    then show "unat (rb (4 * k + c)) \<le> 255" by simp
  qed
  then have "(\<Sum>k < ?n. unat (rb (4 * k + c))) \<le> 255 * ?n" by simp
  then have "real (\<Sum>k < ?n. unat (rb (4 * k + c))) \<le> 255 * real ?n"
    by (metis of_nat_le_iff of_nat_mult of_nat_numeral)
  then have "channelMean rb c \<le> 255"
    using n by (simp add: channelMean_def divide_le_eq)
  then show "mathRound (channelMean rb c) \<le> 255"
    by (simp add: mathRound_def floor_le_iff)
  have "0 \<le> channelMean rb c" unfolding channelMean_def by (rule divide_nonneg_nonneg) (rule of_nat_0_le_iff)+
  then show "0 \<le> mathRound (channelMean rb c)"
    by (simp add: mathRound_def)
qed

lemma channelMean_solid: "channelMean (readback (solid c)) k = real (unat c)"
  by (simp add: channelMean_def solid_def probeTargetSize_def)

lemma quadFace_size:
  "itemSizeU (quadFace pos nrm x w) = real w" "itemSizeV (quadFace pos nrm x w) = 1"
  "atlasTexelLeft (quadFace pos nrm x w) = real x" "atlasTexelTop (quadFace pos nrm x w) = 0"
  by (simp_all add: itemSizeU_def itemSizeV_def atlasTexelLeft_def atlasTexelTop_def quadFace_def
      atlasWidth_def atlasHeight_def add_divide_distrib)

lemma quadFace_geom:
  "faceTexelCols (quadFace pos nrm x w) = int w" "faceTexelRows (quadFace pos nrm x w) = 1"
  "faceTexels (quadFace pos nrm x w) = w"
  by (simp_all add: faceTexelCols_def faceTexelRows_def faceTexels_def quadFace_size)

lemma quadFace_fill: "pixelFillCount (quadFace pos nrm x w) = Some 0"
  "(quadFace pos nrm x w)\<lparr>pixelFillCount := Some 0\<rparr> = quadFace pos nrm x w"
  by (simp_all add: quadFace_def)

lemma quadFace_texel:
  assumes "t < w"
  shows "atlasTexelX ((quadFace pos nrm x w)\<lparr>pixelFillCount := Some t\<rparr>) = Some (int (x + t))"
    and "atlasTexelY ((quadFace pos nrm x w)\<lparr>pixelFillCount := Some t\<rparr>) = Some 0"
    and "texelOffset ((quadFace pos nrm x w)\<lparr>pixelFillCount := Some t\<rparr>) = Some (int (3 * (x + t)))"
    and "nextFillCount ((quadFace pos nrm x w)\<lparr>pixelFillCount := Some t\<rparr>) = Some (Suc t mod w)"
    and "pU ((quadFace pos nrm x w)\<lparr>pixelFillCount := Some t\<rparr>) = Some ((real t + 1 / 2) / real w)"
    and "pV ((quadFace pos nrm x w)\<lparr>pixelFillCount := Some t\<rparr>) = Some (1 / 2)"
  using assms
  by (simp_all add: texelOffset_def atlasTexelX_def atlasTexelY_def faceTexelX_def faceTexelY_def
      nextFillCount_def pU_def pV_def jsRem_def quadFace_geom quadFace_size atlasWidth_def)

lemmas quadFace_texel0 = quadFace_texel[where t = 0, unfolded quadFace_fill]

lemma quadFace_fits: "0 < w \<Longrightarrow> 3 * (x + w) \<le> len \<Longrightarrow> faceFits len (quadFace pos nrm x w)"
  by (auto simp: faceFits_def quadFace_geom list_all_iff slotFits_def quadFace_texel)

lemma quadFace_slot:
  "0 < w \<Longrightarrow> 3 * (x + w) \<le> len \<Longrightarrow> slotFits len (quadFace pos nrm x w)"
  "0 < w \<Longrightarrow> slotOf (quadFace pos nrm x w) = 3 * x"
  by (simp_all add: slotFits_def slotOf_def quadFace_texel0)

lemma stateWith_fields:
  "atlasInfo (stateWith f) = [quadFace squarePositions flatNormals 0 1, quadFace squarePositions flatNormals 1 1,
                     quadFace squarePositions flatNormals 2 1, quadFace squarePositions flatNormals 3 1, f]"
  "atlasFaceFillIndex (stateWith f) = 4"
  "atlasStack (stateWith f) = [createAtlasTexture atlasWidth atlasHeight True,
                     createAtlasTexture atlasWidth atlasHeight False]"
  "atlasInfo (stateWith f) ! 4 = f"
  "length (atlasInfo (stateWith f)) = 5"
  by (simp_all add: stateWith_def initialState_def)

lemma square_reads:
  "readVec3 squarePositions 0 = Some (0, 1, 0)" "readVec3 squarePositions 3 = Some (1, 1, 0)"
  "readVec3 squarePositions 6 = Some (0, 0, 0)" "readVec3 squarePositions 9 = Some (1, 0, 0)"
  "readVec3 skewPositions 0 = Some (0, 1, 0)" "readVec3 skewPositions 3 = Some (2, 1, 0)"
  "readVec3 skewPositions 6 = Some (0, 0, 0)" "readVec3 skewPositions 9 = Some (1, 0, 0)"
  "readVec3 flatNormals 0 = Some (0, 0, 1)" "readVec3 roundNormals 0 = Some (0, 0, 1)"
  "readVec3 roundNormals 3 = Some (1, 0, 0)" "readVec3 roundNormals 6 = Some (1, 0, 0)"
  "readVec3 roundNormals 9 = Some (1, 0, 0)"
  by (simp_all add: readVec3_def readAt_def squarePositions_def skewPositions_def
      flatNormals_def roundNormals_def)

lemma quadFace_buffer:
  "positionArray (buffer (quadFace pos nrm x w)) = pos"
  "normalArray (buffer (quadFace pos nrm x w)) = nrm"
  "faceIndex (quadFace pos nrm x w) = 0"
  by (simp_all add: quadFace_def)

lemma stateWith_fit:
  "0 < w \<Longrightarrow> w \<le> 100 \<Longrightarrow>
   slotFits (3 * (atlasWidth * atlasHeight)) (quadFace pos nrm 4 w)"
  by (rule quadFace_slot) (simp_all add: atlasWidth_def atlasHeight_def)

lemma stateWith_tick:
  assumes "0 < w" and "w \<le> 100"
  shows "tick inp (stateWith (quadFace pos nrm 4 w)) = Inr
     \<lparr> atlasInfo = (atlasInfo (stateWith (quadFace pos nrm 4 w)))
                     [4 := (quadFace pos nrm 4 w)\<lparr>pixelFillCount := Some (Suc 0 mod w)\<rparr>],
       atlasStack =
           [\<lparr> data = writeSlot inp (data (createAtlasTexture atlasWidth atlasHeight True)) 12,
              needsUpdate = True \<rparr>, createAtlasTexture atlasWidth atlasHeight False],
       atlasFaceFillIndex = (if w = 1 then 0 else 4),
       probeCam = probeFor (quadFace pos nrm 4 w) (rnd inp),
       probeData = map (readback inp) [0..<probeTargetSize * probeTargetSize * 4],
       probeDebugNeedsUpdate = True \<rparr>"
proof -
  let ?s = "stateWith (quadFace pos nrm 4 w)"
  have h1: "atlasFaceFillIndex ?s < length (atlasInfo ?s)"
    by (simp add: stateWith_fields)
  have h2: "atlasStack ?s = createAtlasTexture atlasWidth atlasHeight True #
                            [createAtlasTexture atlasWidth atlasHeight False]"
    by (simp add: stateWith_fields)
  have h3: "slotFits (length (data (createAtlasTexture atlasWidth atlasHeight True)))
              (atlasInfo ?s ! atlasFaceFillIndex ?s)"
    using assms by (simp add: stateWith_fields stateWith_fit)
  have n: "nextFillCount (quadFace pos nrm 4 w) = Some (Suc 0 mod w)"
    using assms quadFace_texel0(4)[of w pos nrm 4] by simp
  have m: "(Suc 0 mod w = 0) = (w = 1)" using assms by (cases "w = 1") auto
  show ?thesis
    unfolding tick_result[OF h1 h2 h3]
    using assms by (simp add: stateWith_fields n m quadFace_slot(2))
qed

lemma stateWith_passStart:
  "0 < w \<Longrightarrow> w \<le> 100 \<Longrightarrow> passStart (stateWith (quadFace pos nrm 4 w))"
  by (simp add: passStart_def stateWith_fields stackFits_def quadFace_fits quadFace_fill
      atlasWidth_def atlasHeight_def)

lemma stateWith_texels:
  "sum_list (map faceTexels (atlasInfo (stateWith (quadFace pos nrm 4 w)))) = 4 + w"
  by (simp add: stateWith_fields quadFace_geom)

lemma tick_geometry:
  assumes "tick inp s = Inr s'"
  shows "length (atlasInfo s') = length (atlasInfo s)"
    and "j < length (atlasInfo s) \<Longrightarrow>
         (atlasInfo s' ! j)\<lparr>pixelFillCount := t\<rparr> = (atlasInfo s ! j)\<lparr>pixelFillCount := t\<rparr>"
  using assms
  by (auto simp: tick_def Let_def nth_list_update
      split: if_splits list.splits sum.splits prod.splits)

lemma traced_visited:
  "traced g inps s =
     map (\<lambda>(j, t). if j < length (atlasInfo s)
                   then g ((atlasInfo s ! j)\<lparr>pixelFillCount := t\<rparr>) else None)
         (visited inps s)"
proof (induction inps arbitrary: s)
  case Nil
  then show ?case by simp
next
  case (Cons inp inps)
  show ?case
  proof (cases "tick inp s")
    case (Inl e)
    then show ?thesis by (simp add: cursor_def)
  next
    case (Inr s')
    have "map (\<lambda>(j, t). if j < length (atlasInfo s')
                   then g ((atlasInfo s' ! j)\<lparr>pixelFillCount := t\<rparr>) else None)
              (visited inps s') =
          map (\<lambda>(j, t). if j < length (atlasInfo s)
                   then g ((atlasInfo s ! j)\<lparr>pixelFillCount := t\<rparr>) else None)
              (visited inps s')"
      by (rule map_cong) (auto simp: tick_geometry[OF Inr])
    then show ?thesis using Cons.IH[of s'] Inr by (simp add: cursor_def)
  qed
qed

lemma traced_faces:
  assumes "visited inps s = faceVisits (atlasInfo s) faces"
    and "\<forall>j \<in> set faces. j < length (atlasInfo s)"
  shows "traced g inps s =
     concat (map (\<lambda>j. map (\<lambda>t. g ((atlasInfo s ! j)\<lparr>pixelFillCount := Some t\<rparr>))
                           [0..<faceTexels (atlasInfo s ! j)]) faces)"
  using assms(2)
  by (simp add: traced_visited assms(1) faceVisits_def map_concat comp_def cong: map_cong)

lemma row_major:
  assumes "0 < C"
  shows "map (\<lambda>t. h (t mod C) (t div C)) [0..<R * C] =
         concat (map (\<lambda>r. map (\<lambda>c. h c r) [0..<C]) [0..<R])"
proof (induction R)
  case 0
  then show ?case by simp
next
  case (Suc R)
  have "[0..<Suc R * C] = [0..<R * C] @ [R * C..<R * C + C]"
    using upt_add_eq_append[of 0 "R * C" C] by (simp add: add.commute)
  moreover have "[R * C..<R * C + C] = map (\<lambda>c. c + R * C) [0..<C]"
    by (simp add: map_add_upt add.commute)
  moreover have "map (\<lambda>c. h ((c + R * C) mod C) ((c + R * C) div C)) [0..<C] =
                 map (\<lambda>c. h c R) [0..<C]"
    using assms by (intro map_cong) simp_all
  ultimately show ?case using Suc by (simp add: comp_def)
qed

lemma texelOf_fill:
  assumes "0 < faceTexelCols f"
  shows "texelOf (f\<lparr>pixelFillCount := Some t\<rparr>) =
     Some (\<lfloor>atlasTexelLeft f\<rfloor> + int (t mod nat (faceTexelCols f)),
           \<lfloor>atlasTexelTop f\<rfloor> + int (t div nat (faceTexelCols f)))"
proof -
  have "int t div faceTexelCols f = int (t div nat (faceTexelCols f))"
    using assms by (simp add: zdiv_int)
  then show ?thesis
    using assms
    by (simp add: texelOf_def atlasTexelX_def atlasTexelY_def faceTexelX_def faceTexelY_def
        jsRem_def)
qed

lemma face_texels_grid:
  assumes "0 < faceTexelCols f" and "0 < faceTexelRows f * faceTexelCols f"
  shows "map (\<lambda>t. texelOf (f\<lparr>pixelFillCount := Some t\<rparr>)) [0..<faceTexels f] =
         map Some (faceGrid f)"
proof -
  from assms have r: "0 < faceTexelRows f" by (simp add: zero_less_mult_iff)
  have n: "faceTexels f = nat (faceTexelRows f) * nat (faceTexelCols f)"
    using r by (simp add: faceTexels_def nat_mult_distrib)
  have c: "0 < nat (faceTexelCols f)" using assms(1) by simp
  show ?thesis
    unfolding n texelOf_fill[OF assms(1)]
    using row_major[OF c, of "\<lambda>c r. Some (\<lfloor>atlasTexelLeft f\<rfloor> + int c, \<lfloor>atlasTexelTop f\<rfloor> + int r)"
        "nat (faceTexelRows f)"]
    by (simp add: faceGrid_def map_concat comp_def)
qed

lemma texelOffset_texelOf: "texelOffset f = map_option slotAt (texelOf f)"
  by (simp add: texelOffset_def texelOf_def slotAt_def split: option.splits)

lemma traced_map: "traced (\<lambda>f. map_option h (g f)) inps s = map (map_option h) (traced g inps s)"
  by (induction inps arbitrary: s) (auto split: sum.splits)


lemma concat_split_at:
  assumes "k \<le> length xs"
  shows "concat (map f xs) =
         concat (map (\<lambda>j. f (xs ! j)) [0..<k]) @ concat (map (\<lambda>j. f (xs ! j)) [k..<length xs])"
proof -
  have "map (\<lambda>j. f (xs ! j)) [0..<length xs] = map f (map (\<lambda>j. xs ! j) [0..<length xs])"
    by (simp add: comp_def)
  then have "map f xs = map (\<lambda>j. f (xs ! j)) [0..<length xs]"
    by (simp only: map_nth)
  moreover have "[0..<length xs] = [0..<k] @ [k..<length xs]"
    using upt_add_eq_append[of 0 k "length xs - k"] assms by simp
  ultimately show ?thesis by simp
qed

lemma length_faceGrid:
  "0 < faceTexelRows f \<Longrightarrow> length (faceGrid f) = faceTexels f"
  by (simp add: faceGrid_def length_concat comp_def sum_list_triv faceTexels_def nat_mult_distrib)

lemma pass_texels:
  assumes ps: "passStart s"
    and v: "visited inps s = faceVisits (atlasInfo s) ([4..<length (atlasInfo s)] @ [0..<4])"
    and len: "length inps = sum_list (map faceTexels (atlasInfo s))"
    and cols: "list_all (\<lambda>f. 0 < faceTexelCols f) (atlasInfo s)"
  shows "traced texelOf inps s =
           map Some (concat (map (\<lambda>j. faceGrid (atlasInfo s ! j))
                                 ([4..<length (atlasInfo s)] @ [0..<4])))"
    and "traced texelOffset inps s =
           map (\<lambda>p. Some (slotAt p)) (concat (map (\<lambda>j. faceGrid (atlasInfo s ! j))
                                 ([4..<length (atlasInfo s)] @ [0..<4])))"
    and "length inps = length (concat (map faceGrid (atlasInfo s)))"
    and "distinct (concat (map faceGrid (atlasInfo s))) \<Longrightarrow>
         distinct (traced texelOf inps s) \<and>
         set (traced texelOf inps s) = Some ` set (concat (map faceGrid (atlasInfo s)))"
proof -
  let ?n = "length (atlasInfo s)"
  let ?order = "[4..<?n] @ [0..<4]"
  let ?G = "concat (map (\<lambda>j. faceGrid (atlasInfo s ! j)) ?order)"
  from ps have n: "4 < ?n" and sf: "stackFits (atlasInfo s) (atlasStack s)"
    by (simp_all add: passStart_def)
  from sf obtain first others where st: "atlasStack s = first # others"
    by (cases "atlasStack s") (simp_all add: stackFits_def)
  with sf have "list_all (faceFits (length (data first))) (atlasInfo s)"
    by (simp add: stackFits_def)
  then have pos: "\<And>j. j < ?n \<Longrightarrow> 0 < faceTexelRows (atlasInfo s ! j) * faceTexelCols (atlasInfo s ! j)"
    by (simp add: list_all_length faceFits_def)
  have cpos: "\<And>j. j < ?n \<Longrightarrow> 0 < faceTexelCols (atlasInfo s ! j)"
    using cols by (simp add: list_all_length)
  have rpos: "0 < faceTexelRows (atlasInfo s ! j)" if "j < ?n" for j
    using pos[OF that] cpos[OF that] by (simp add: zero_less_mult_iff)
  have inr: "\<forall>j \<in> set ?order. j < ?n" using n by auto
  then have inr': "\<And>j. j \<in> set ?order \<Longrightarrow> j < ?n" by blast
  have "traced texelOf inps s =
        concat (map (\<lambda>j. map (\<lambda>t. texelOf ((atlasInfo s ! j)\<lparr>pixelFillCount := Some t\<rparr>))
                              [0..<faceTexels (atlasInfo s ! j)]) ?order)"
    by (rule traced_faces[OF v inr])
  also have "\<dots> = concat (map (\<lambda>j. map Some (faceGrid (atlasInfo s ! j))) ?order)"
    by (intro arg_cong[where f = concat] map_cong refl face_texels_grid cpos pos inr')
  also have "\<dots> = map Some ?G"
    by (simp add: map_concat comp_def)
  finally show t: "traced texelOf inps s = map Some ?G" .
  have "traced texelOffset inps s = map (map_option slotAt) (traced texelOf inps s)"
    using traced_map[of slotAt texelOf inps s] by (simp add: texelOffset_texelOf[abs_def])
  then show "traced texelOffset inps s = map (\<lambda>p. Some (slotAt p)) ?G"
    unfolding t by (simp add: comp_def)
  have "map (\<lambda>f. length (faceGrid f)) (atlasInfo s) = map faceTexels (atlasInfo s)"
    using rpos by (auto simp: list_eq_iff_nth_eq length_faceGrid)
  then show "length inps = length (concat (map faceGrid (atlasInfo s)))"
    using len by (simp only: length_concat map_map comp_def)
  assume d: "distinct (concat (map faceGrid (atlasInfo s)))"
  have sp: "concat (map faceGrid (atlasInfo s)) =
            concat (map (\<lambda>j. faceGrid (atlasInfo s ! j)) [0..<4]) @
            concat (map (\<lambda>j. faceGrid (atlasInfo s ! j)) [4..<?n])"
    using concat_split_at[of 4 "atlasInfo s" faceGrid] n by simp
  have g: "?G = concat (map (\<lambda>j. faceGrid (atlasInfo s ! j)) [4..<?n]) @
                concat (map (\<lambda>j. faceGrid (atlasInfo s ! j)) [0..<4])"
    by simp
  have dG: "distinct ?G" using d unfolding sp g by (simp only: distinct_append) blast
  have sG: "set ?G = set (concat (map faceGrid (atlasInfo s)))"
    unfolding sp g by (simp only: set_append) blast
  have "distinct (map Some ?G)"
    by (simp only: distinct_map dG inj_Some simp_thms)
  moreover have "set (map Some ?G) = Some ` set (concat (map faceGrid (atlasInfo s)))"
    by (simp only: set_map sG)
  ultimately show "distinct (traced texelOf inps s) \<and>
         set (traced texelOf inps s) = Some ` set (concat (map faceGrid (atlasInfo s)))"
    unfolding t by (rule conjI)
qed

lemma gridFace_size:
  "itemSizeU (gridFace x y w h) = real w" "itemSizeV (gridFace x y w h) = real h"
  "atlasTexelLeft (gridFace x y w h) = real x" "atlasTexelTop (gridFace x y w h) = real y"
  by (simp_all add: itemSizeU_def itemSizeV_def atlasTexelLeft_def atlasTexelTop_def gridFace_def
      atlasWidth_def atlasHeight_def add_divide_distrib)

lemma gridFace_geom:
  "faceTexelCols (gridFace x y w h) = int w" "faceTexelRows (gridFace x y w h) = int h"
  "faceTexels (gridFace x y w h) = h * w"
  "pixelFillCount (gridFace x y w h) = Some 0"
  by (simp_all add: faceTexelCols_def faceTexelRows_def faceTexels_def gridFace_size nat_mult_distrib)
     (simp add: gridFace_def)

lemma quadFace_grid: "faceGrid (quadFace pos nrm x (Suc 0)) = [(int x, 0)]"
  by (simp add: faceGrid_def quadFace_geom quadFace_size)

lemma gridFace_grid:
  "faceGrid (gridFace 0 (Suc 0) 2 2) = [(0, 1), (1, 1), (0, 2), (1, 2)]"
  by (simp add: faceGrid_def gridFace_geom gridFace_size upt_conv_Cons)

lemma gridFace_fits:
  assumes "0 < w" and "0 < h" and "x + w \<le> 128" and "3 * (128 * (y + h)) \<le> len"
  shows "faceFits len (gridFace x y w h)"
proof -
  have "slotFits len ((gridFace x y w h)\<lparr>pixelFillCount := Some t\<rparr>)" if t: "t < h * w" for t
  proof -
    have c: "0 < faceTexelCols (gridFace x y w h)" using assms(1) by (simp add: gridFace_geom)
    have d: "t div w < h" using t assms(1) by (simp add: less_mult_imp_div_less)
    have m: "t mod w < w" using assms(1) by simp
    have "128 * (y + t div w) + (x + t mod w) + 1 \<le> 128 * (y + h)"
      using d m assms(3) by (simp add: algebra_simps) 
    then have "3 * (128 * (y + t div w) + (x + t mod w)) + 3 \<le> len"
      using assms(4) by simp
    then have "(int (y + t div w) * 128 + int (x + t mod w)) * 3 + 3 \<le> int len"
      by (simp add: algebra_simps) 
    then show ?thesis
      by (simp add: slotFits_def texelOffset_texelOf texelOf_fill[OF c] gridFace_geom
          gridFace_size slotAt_def atlasWidth_def)
  qed
  then show ?thesis
    using assms(1,2) by (simp add: faceFits_def gridFace_geom list_all_iff)
qed

text \<open>
  C4, as the code has it.  Take a state at the start of a pass (\<open>passStart\<close>: more than
  four faces, the cursor on face 4, all fill counts 0, every face with at least one texel
  and with all its slots inside the buffers) and as many frames as the faces have texels.
  Then no frame raises, the cursor is back on face 4 with all fill counts 0, and the cursor
  positions of the frames are those of faces 4, 5, \<dots>, then 0 to 3, each face from its
  first texel to its last: every texel of every face exactly once.  When every face has
  at least one column of texels, the texels that the frames resolve are, face after face
  in that order, the texels of the face's rectangle row by row (\<open>faceGrid\<close>), each frame
  writing at the slot of its texel, and the number of frames is the number of these
  texels; when no texel belongs to two faces, no texel is resolved twice, and the texels
  resolved are exactly the texels of the faces.
\<close>

theorem fill_cursor_pass:
  assumes "passStart s"
    and "length inps = sum_list (map faceTexels (atlasInfo s))"
  shows "\<exists>s'. ticks inps s = Inr s' \<and>
      atlasFaceFillIndex s' = atlasFaceFillIndex s \<and> atlasInfo s' = atlasInfo s \<and>
      passStart s' \<and>
      visited inps s = faceVisits (atlasInfo s) ([4..<length (atlasInfo s)] @ [0..<4]) \<and>
      distinct (visited inps s) \<and>
      set (visited inps s) =
        {(j, Some t) | j t. j < length (atlasInfo s) \<and> t < faceTexels (atlasInfo s ! j)} \<and>
      (list_all (\<lambda>f. 0 < faceTexelCols f) (atlasInfo s) \<longrightarrow>
         traced texelOf inps s =
           map Some (concat (map (\<lambda>j. faceGrid (atlasInfo s ! j))
                                 ([4..<length (atlasInfo s)] @ [0..<4]))) \<and>
         traced texelOffset inps s =
           map (\<lambda>p. Some (slotAt p)) (concat (map (\<lambda>j. faceGrid (atlasInfo s ! j))
                                 ([4..<length (atlasInfo s)] @ [0..<4]))) \<and>
         length inps = length (concat (map faceGrid (atlasInfo s))) \<and>
         (distinct (concat (map faceGrid (atlasInfo s))) \<longrightarrow>
            distinct (traced texelOf inps s) \<and>
            set (traced texelOf inps s) = Some ` set (concat (map faceGrid (atlasInfo s)))))"
proof -
  from full_pass[OF assms] obtain s' where
    r: "ticks inps s = Inr s'" "passStart s'" "atlasInfo s' = atlasInfo s"
    and v: "visited inps s = faceVisits (atlasInfo s) ([4..<length (atlasInfo s)] @ [0..<4])"
    by blast
  from assms(1) have n: "4 < length (atlasInfo s)" by (simp add: passStart_def)
  have d: "distinct ([4..<length (atlasInfo s)] @ [0..<4])" by auto
  have st: "set ([4..<length (atlasInfo s)] @ [0..<4]) = {0..<length (atlasInfo s)}"
    using n by auto
  have "distinct (visited inps s)" using v distinct_faceVisits[OF d] by simp
  moreover have "set (visited inps s) =
        {(j, Some t) | j t. j < length (atlasInfo s) \<and> t < faceTexels (atlasInfo s ! j)}"
    unfolding v set_faceVisits st by auto
  moreover have "atlasFaceFillIndex s' = atlasFaceFillIndex s"
    using r(2) assms(1) by (simp add: passStart_def)
  ultimately show ?thesis
    using r v pass_texels[OF assms(1) v assms(2)] by blast
qed

theorem fill_cursor_pass_witness:
  "passStart (stateWith (gridFace 0 1 2 2)) \<and>
   length (replicate 8 (solid 200)) =
     sum_list (map faceTexels (atlasInfo (stateWith (gridFace 0 1 2 2)))) \<and>
   list_all (\<lambda>f. 0 < faceTexelCols f) (atlasInfo (stateWith (gridFace 0 1 2 2))) \<and>
   distinct (concat (map faceGrid (atlasInfo (stateWith (gridFace 0 1 2 2))))) \<and>
   map_sum id atlasFaceFillIndex
     (ticks (replicate 8 (solid 200)) (stateWith (gridFace 0 1 2 2))) = Inr 4 \<and>
   visited (replicate 8 (solid 200)) (stateWith (gridFace 0 1 2 2)) =
     [(4, Some 0), (4, Some 1), (4, Some 2), (4, Some 3),
      (0, Some 0), (1, Some 0), (2, Some 0), (3, Some 0)] \<and>
   traced texelOf (replicate 8 (solid 200)) (stateWith (gridFace 0 1 2 2)) =
     [Some (0, 1), Some (1, 1), Some (0, 2), Some (1, 2),
      Some (0, 0), Some (1, 0), Some (2, 0), Some (3, 0)] \<and>
   traced texelOffset (replicate 8 (solid 200)) (stateWith (gridFace 0 1 2 2)) =
     [Some 384, Some 387, Some 768, Some 771, Some 0, Some 3, Some 6, Some 9]"
proof -
  let ?s = "stateWith (gridFace 0 1 2 2)"
  have h1: "passStart ?s"
    by (simp add: passStart_def stateWith_fields stackFits_def quadFace_fits quadFace_fill
        gridFace_fits gridFace_geom atlasWidth_def atlasHeight_def)
  have h2: "length (replicate 8 (solid 200)) = sum_list (map faceTexels (atlasInfo ?s))"
    by (simp add: stateWith_fields quadFace_geom gridFace_geom)
  have h3: "list_all (\<lambda>f. 0 < faceTexelCols f) (atlasInfo ?s)"
    by (simp add: stateWith_fields quadFace_geom gridFace_geom)
  have g: "map (\<lambda>j. faceGrid (atlasInfo ?s ! j)) ([4..<length (atlasInfo ?s)] @ [0..<4]) =
           [[(0, 1), (1, 1), (0, 2), (1, 2)], [(0, 0)], [(1, 0)], [(2, 0)], [(3, 0)]]"
    by (simp add: stateWith_fields quadFace_grid gridFace_grid upt_conv_Cons)
  have h4: "distinct (concat (map faceGrid (atlasInfo ?s)))"
    by (simp add: stateWith_fields quadFace_grid gridFace_grid)
  have i: "atlasFaceFillIndex ?s = 4" by (simp add: stateWith_fields)
  have vs: "faceVisits (atlasInfo ?s) ([4..<length (atlasInfo ?s)] @ [0..<4]) =
     [(4, Some 0), (4, Some 1), (4, Some 2), (4, Some 3),
      (0, Some 0), (1, Some 0), (2, Some 0), (3, Some 0)]"
    by (simp add: stateWith_fields faceVisits_def quadFace_geom gridFace_geom upt_conv_Cons)
  from fill_cursor_pass[OF h1 h2] h1 h2 h3 h4 i show ?thesis
    unfolding g vs by (auto simp: slotAt_def atlasWidth_def)
qed


lemma no_columns:
  assumes "faceTexelCols f = 0"
  shows "texelOffset f = None" "nextFillCount f = None"
  using assms
  by (simp_all add: texelOffset_def atlasTexelX_def faceTexelX_def nextFillCount_def jsRem_def
      split: option.splits)

lemma stuck_tick:
  assumes "atlasFaceFillIndex s < length (atlasInfo s)"
    and "faceTexelCols (atlasInfo s ! atlasFaceFillIndex s) = 0"
    and "atlasStack s = first # others"
    and "3 \<le> length (data first)"
  shows "\<exists>s' first'. tick inp s = Inr s' \<and>
      atlasFaceFillIndex s' = atlasFaceFillIndex s \<and>
      atlasInfo s' = (atlasInfo s)[atlasFaceFillIndex s :=
                        (atlasInfo s ! atlasFaceFillIndex s)\<lparr>pixelFillCount := None\<rparr>] \<and>
      atlasStack s' = first' # others \<and> length (data first') = length (data first)"
proof -
  have fit: "slotFits (length (data first)) (atlasInfo s ! atlasFaceFillIndex s)"
    using assms(4) by (simp add: slotFits_def no_columns[OF assms(2)])
  show ?thesis
    unfolding tick_result[OF assms(1,3) fit]
    by (simp add: no_columns[OF assms(2)])
qed

lemma stuck_visited:
  assumes "atlasFaceFillIndex s = i" and "i < length (atlasInfo s)"
    and "faceTexelCols (atlasInfo s ! i) = 0"
    and "pixelFillCount (atlasInfo s ! i) = None"
    and "atlasStack s = first # others"
    and "3 \<le> length (data first)"
  shows "visited inps s = replicate (length inps) (i, None)"
  using assms
proof (induction inps arbitrary: s first)
  case Nil
  then show ?case by simp
next
  case (Cons inp inps)
  from stuck_tick[of s first others inp] Cons.prems obtain s' first' where
    t: "tick inp s = Inr s'" and i': "atlasFaceFillIndex s' = i"
    and info': "atlasInfo s' = (atlasInfo s)[i := (atlasInfo s ! i)\<lparr>pixelFillCount := None\<rparr>]"
    and st': "atlasStack s' = first' # others" and len': "length (data first') = length (data first)"
    by auto
  have c: "cursor s = (i, None)" using Cons.prems by (simp add: cursor_def)
  have "visited inps s' = replicate (length inps) (i, None)"
    by (rule Cons.IH[OF i' _ _ _ st'])
       (use Cons.prems info' len' in simp_all)
  then show ?case using t c by simp
qed

lemma overlap_trace:
  "traced texelOf [solid 200, solid 200, solid 200, solid 200, solid 200]
     (stateWith (quadFace squarePositions flatNormals 3 1)) =
     [Some (3, 0), Some (0, 0), Some (1, 0), Some (2, 0), Some (3, 0)]"
proof -
  let ?s = "stateWith (quadFace squarePositions flatNormals 3 1)"
  let ?inps = "[solid 200, solid 200, solid 200, solid 200, solid 200]"
  have h1: "passStart ?s"
    by (simp add: passStart_def stateWith_fields stackFits_def quadFace_fits quadFace_fill
        atlasWidth_def atlasHeight_def)
  have h2: "length ?inps = sum_list (map faceTexels (atlasInfo ?s))"
    by (simp add: stateWith_fields quadFace_geom)
  have h3: "list_all (\<lambda>f. 0 < faceTexelCols f) (atlasInfo ?s)"
    by (simp add: stateWith_fields quadFace_geom)
  from full_pass[OF h1 h2] have
    v: "visited ?inps ?s = faceVisits (atlasInfo ?s) ([4..<length (atlasInfo ?s)] @ [0..<4])"
    by blast
  have g: "map (\<lambda>j. faceGrid (atlasInfo ?s ! j)) ([4..<length (atlasInfo ?s)] @ [0..<4]) =
           [[(3, 0)], [(0, 0)], [(1, 0)], [(2, 0)], [(3, 0)]]"
    by (simp add: stateWith_fields quadFace_grid upt_conv_Cons)
  show ?thesis
    unfolding pass_texels(1)[OF h1 v h2 h3] g by simp
qed

text \<open>
  C4 as stated fails in four ways.  With a single face (one texel), the first frame reads
  \<^verbatim>\<open>atlasInfo[4]\<close> and raises.  With a face that has no texels (zero width), the fill
  count becomes NaN and the cursor never leaves the face: four frames for an atlas of four
  texels visit none of faces 0 to 3.  With a face placed below the last texel row of the
  atlas (\<^verbatim>\<open>top\<close> = 1, where the layout puts the 65th face), the write raises.  With
  two faces on the same texel, a pass resolves that texel twice.
\<close>

theorem fill_cursor_pass_counterexample:
  "sum_list (map faceTexels (atlasInfo oneFaceState)) = 1 \<and>
   ticks [solid 200] oneFaceState = Inl TypeError \<and>
   sum_list (map faceTexels (atlasInfo (stateWith (quadFace squarePositions flatNormals 4 0)))) = 4 \<and>
   visited [solid 200, solid 200, solid 200, solid 200]
     (stateWith (quadFace squarePositions flatNormals 4 0)) =
     [(4, Some 0), (4, None), (4, None), (4, None)] \<and>
   tick (solid 200) (stateWith ((quadFace squarePositions flatNormals 0 1)
      \<lparr>top_edge := 1, bottom := 129 / 128\<rparr>)) = Inl RangeError \<and>
   traced texelOf [solid 200, solid 200, solid 200, solid 200, solid 200]
     (stateWith (quadFace squarePositions flatNormals 3 1)) =
     [Some (3, 0), Some (0, 0), Some (1, 0), Some (2, 0), Some (3, 0)]"
proof -
  have a: "sum_list (map faceTexels (atlasInfo oneFaceState)) = 1"
    by (simp add: oneFaceState_def quadFace_geom)
  have b: "ticks [solid 200] oneFaceState = Inl TypeError"
    by (simp add: oneFaceState_def tick_def initialState_def)
  let ?f = "quadFace squarePositions flatNormals 4 0"
  let ?s = "stateWith ?f"
  have c: "sum_list (map faceTexels (atlasInfo ?s)) = 4"
    by (simp add: stateWith_fields quadFace_geom)
  have cols: "faceTexelCols (atlasInfo ?s ! atlasFaceFillIndex ?s) = 0"
    by (simp add: stateWith_fields quadFace_geom)
  have i: "atlasFaceFillIndex ?s < length (atlasInfo ?s)" by (simp add: stateWith_fields)
  have st: "atlasStack ?s = createAtlasTexture atlasWidth atlasHeight True #
                            [createAtlasTexture atlasWidth atlasHeight False]"
    by (simp add: stateWith_fields)
  have len: "3 \<le> length (data (createAtlasTexture atlasWidth atlasHeight True))"
    by (simp add: atlasWidth_def atlasHeight_def)
  from stuck_tick[OF i cols st len, of "solid 200"] obtain s' first' where
    t: "tick (solid 200) ?s = Inr s'" and i': "atlasFaceFillIndex s' = 4"
    and info': "atlasInfo s' = (atlasInfo ?s)[4 := ?f\<lparr>pixelFillCount := None\<rparr>]"
    and st': "atlasStack s' = first' # [createAtlasTexture atlasWidth atlasHeight False]"
    and len': "length (data first') = length (data (createAtlasTexture atlasWidth atlasHeight True))"
    by (auto simp: stateWith_fields)
  have "visited [solid 200, solid 200, solid 200] s' =
        replicate (length [solid 200, solid 200, solid 200]) (4, None)"
    by (rule stuck_visited[OF i' _ _ _ st'])
       (use info' len' len in \<open>simp_all add: stateWith_fields quadFace_geom\<close>)
  moreover have "cursor ?s = (4, Some 0)"
    by (simp add: cursor_def stateWith_fields quadFace_fill)
  ultimately have d: "visited [solid 200, solid 200, solid 200, solid 200] ?s =
      [(4, Some 0), (4, None), (4, None), (4, None)]"
    using t by simp
  let ?g = "(quadFace squarePositions flatNormals 0 1)\<lparr>top_edge := 1, bottom := 129 / 128\<rparr>"
  have off: "texelOffset ((quadFace squarePositions flatNormals 0 (Suc 0))
                  \<lparr>top_edge := 1, bottom := 129 / 128\<rparr>) = Some 49152"
    by (simp add: texelOffset_def atlasTexelX_def atlasTexelY_def faceTexelX_def faceTexelY_def
        faceTexelCols_def itemSizeU_def atlasTexelLeft_def atlasTexelTop_def jsRem_def
        quadFace_def atlasWidth_def)
  have e: "tick (solid 200) (stateWith ?g) = Inl RangeError"
    by (simp only: tick_def stateWith_fields Let_def averageProbe_mean)
       (simp add: typedArraySet_def off Let_def atlasWidth_def atlasHeight_def split: prod.splits)
  from a b c d e overlap_trace show ?thesis by simp
qed

text \<open>
  C9: a frame with an empty \<open>atlasInfo\<close> (the atlas is not initialised yet) returns the
  state it was given, without an exception: no buffer, no fill count and no cursor changes.
\<close>

theorem tick_not_ready: "atlasInfo s = [] \<Longrightarrow> tick inp s = Inr s"
  by (simp add: tick_def)

theorem tick_not_ready_witness:
  "atlasInfo initialState = [] \<and> tick (solid 200) initialState = Inr initialState"
proof -
  have h: "atlasInfo initialState = []" by (simp add: initialState_def)
  from tick_not_ready[OF h] h show ?thesis by simp
qed

lemma map_fst_faceVisits:
  "map fst (faceVisits infos faces) =
     concat (map (\<lambda>j. replicate (faceTexels (infos ! j)) j) faces)"
  by (induction faces) (simp_all add: faceVisits_def comp_def map_replicate_const)

text \<open>
  C10.  The cursor of the initial state is face 4.  A frame that does not raise requests a
  promotion exactly when the fill count of its face wraps to 0 and the face index that
  follows is 4; the stack is then reordered with its last buffer first, and is otherwise
  left in order (\<open>first'\<close> is the first buffer after this frame's write).  In a pass, the
  faces are visited in the order 4, 5, \<dots>, then 0, 1, 2, 3.
\<close>

theorem promotion_on_return_to_face_four:
  "atlasFaceFillIndex initialState = 4 \<and>
   (atlasFaceFillIndex s < length (atlasInfo s) \<and> atlasStack s = first # others \<and>
    slotFits (length (data first)) (atlasInfo s ! atlasFaceFillIndex s) \<longrightarrow>
      (\<exists>s' first'. tick inp s = Inr s' \<and>
         atlasFaceFillIndex s' =
           (if nextFillCount (atlasInfo s ! atlasFaceFillIndex s) = Some 0
            then Suc (atlasFaceFillIndex s) mod length (atlasInfo s)
            else atlasFaceFillIndex s) \<and>
         atlasStack s' =
           (if nextFillCount (atlasInfo s ! atlasFaceFillIndex s) = Some 0 \<and>
               atlasFaceFillIndex s' = 4
            then last (first' # others) # butlast (first' # others)
            else first' # others))) \<and>
   (passStart p \<and> length inps = sum_list (map faceTexels (atlasInfo p)) \<longrightarrow>
      map fst (visited inps p) =
        concat (map (\<lambda>j. replicate (faceTexels (atlasInfo p ! j)) j)
                    ([4..<length (atlasInfo p)] @ [0, 1, 2, 3])))"
proof (intro conjI impI)
  show "atlasFaceFillIndex initialState = 4" by (simp add: initialState_def)
next
  assume a: "atlasFaceFillIndex s < length (atlasInfo s) \<and> atlasStack s = first # others \<and>
    slotFits (length (data first)) (atlasInfo s ! atlasFaceFillIndex s)"
  then have h: "atlasFaceFillIndex s < length (atlasInfo s)" "atlasStack s = first # others"
    "slotFits (length (data first)) (atlasInfo s ! atlasFaceFillIndex s)" by simp_all
  show "\<exists>s' first'. tick inp s = Inr s' \<and>
         atlasFaceFillIndex s' =
           (if nextFillCount (atlasInfo s ! atlasFaceFillIndex s) = Some 0
            then Suc (atlasFaceFillIndex s) mod length (atlasInfo s)
            else atlasFaceFillIndex s) \<and>
         atlasStack s' =
           (if nextFillCount (atlasInfo s ! atlasFaceFillIndex s) = Some 0 \<and>
               atlasFaceFillIndex s' = 4
            then last (first' # others) # butlast (first' # others)
            else first' # others)"
    unfolding tick_result[OF h] by (auto simp: promote_def)
next
  assume "passStart p \<and> length inps = sum_list (map faceTexels (atlasInfo p))"
  then have "visited inps p = faceVisits (atlasInfo p) ([4..<length (atlasInfo p)] @ [0..<4])"
    using full_pass[of p inps] by auto
  moreover have "[0..<4] = [0, 1, 2, 3]" by (simp add: upt_conv_Cons)
  ultimately show "map fst (visited inps p) =
        concat (map (\<lambda>j. replicate (faceTexels (atlasInfo p ! j)) j)
                    ([4..<length (atlasInfo p)] @ [0, 1, 2, 3]))"
    by (simp only: map_fst_faceVisits)
qed

theorem promotion_on_return_to_face_four_witness:
  "atlasFaceFillIndex initialState = 4 \<and>
   atlasFaceFillIndex ((stateWith (quadFace squarePositions flatNormals 4 2))\<lparr>atlasFaceFillIndex := 3\<rparr>)
     < length (atlasInfo ((stateWith (quadFace squarePositions flatNormals 4 2))\<lparr>atlasFaceFillIndex := 3\<rparr>)) \<and>
   atlasStack ((stateWith (quadFace squarePositions flatNormals 4 2))\<lparr>atlasFaceFillIndex := 3\<rparr>) =
     createAtlasTexture atlasWidth atlasHeight True #
     [createAtlasTexture atlasWidth atlasHeight False] \<and>
   map_sum id (\<lambda>s'. (atlasFaceFillIndex s', hd (atlasStack s')))
     (tick (solid 200) ((stateWith (quadFace squarePositions flatNormals 4 2))\<lparr>atlasFaceFillIndex := 3\<rparr>)) =
     Inr (4, createAtlasTexture atlasWidth atlasHeight False) \<and>
   passStart (stateWith (quadFace squarePositions flatNormals 4 2)) \<and>
   length (replicate 6 (solid 200)) =
     sum_list (map faceTexels (atlasInfo (stateWith (quadFace squarePositions flatNormals 4 2)))) \<and>
   map fst (visited (replicate 6 (solid 200)) (stateWith (quadFace squarePositions flatNormals 4 2))) =
     [4, 4, 0, 1, 2, 3]"
proof -
  let ?s = "stateWith (quadFace squarePositions flatNormals 4 2)"
  let ?s3 = "?s\<lparr>atlasFaceFillIndex := 3\<rparr>"
  let ?T = "createAtlasTexture atlasWidth atlasHeight True"
  let ?F = "createAtlasTexture atlasWidth atlasHeight False"
  have f3: "atlasInfo ?s3 ! atlasFaceFillIndex ?s3 = quadFace squarePositions flatNormals 3 1"
    by (simp add: stateWith_fields)
  have h1: "atlasFaceFillIndex ?s3 < length (atlasInfo ?s3)"
    by (simp add: stateWith_fields)
  have h2: "atlasStack ?s3 = ?T # [?F]"
    by (simp add: stateWith_fields)
  have h3: "slotFits (length (data ?T)) (atlasInfo ?s3 ! atlasFaceFillIndex ?s3)"
    unfolding f3 by (rule quadFace_slot) (simp_all add: atlasWidth_def atlasHeight_def)
  have h4: "passStart ?s" by (simp add: stateWith_passStart)
  have h5: "length (replicate 6 (solid 200)) = sum_list (map faceTexels (atlasInfo ?s))"
    by (simp add: stateWith_texels)
  have n: "nextFillCount (atlasInfo ?s3 ! atlasFaceFillIndex ?s3) = Some 0"
    unfolding f3 using quadFace_texel0(4)[of 1 squarePositions flatNormals 3] by simp
  have ix: "Suc (atlasFaceFillIndex ?s3) mod length (atlasInfo ?s3) = 4"
    by (simp add: stateWith_fields)
  note inst = promotion_on_return_to_face_four[where s = ?s3 and first = ?T and others = "[?F]"
      and inp = "solid 200" and p = ?s and inps = "replicate 6 (solid 200)"]
  from inst h1 h2 h3 have "\<exists>s' first'. tick (solid 200) ?s3 = Inr s' \<and>
         atlasFaceFillIndex s' =
           (if nextFillCount (atlasInfo ?s3 ! atlasFaceFillIndex ?s3) = Some 0
            then Suc (atlasFaceFillIndex ?s3) mod length (atlasInfo ?s3)
            else atlasFaceFillIndex ?s3) \<and>
         atlasStack s' =
           (if nextFillCount (atlasInfo ?s3 ! atlasFaceFillIndex ?s3) = Some 0 \<and>
               atlasFaceFillIndex s' = 4
            then last (first' # [?F]) # butlast (first' # [?F])
            else first' # [?F])"
    by blast
  then obtain s' first' where
    t: "tick (solid 200) ?s3 = Inr s'"
    and i': "atlasFaceFillIndex s' = 4"
    and st: "atlasStack s' = last (first' # [?F]) # butlast (first' # [?F])"
    unfolding n ix by auto
  have c2: "map_sum id (\<lambda>s'. (atlasFaceFillIndex s', hd (atlasStack s'))) (tick (solid 200) ?s3) =
     Inr (4, ?F)"
    using t i' st by simp
  from inst h4 h5 have c3: "map fst (visited (replicate 6 (solid 200)) ?s) =
        concat (map (\<lambda>j. replicate (faceTexels (atlasInfo ?s ! j)) j)
                    ([4..<length (atlasInfo ?s)] @ [0, 1, 2, 3]))"
    by blast
  have c3': "concat (map (\<lambda>j. replicate (faceTexels (atlasInfo ?s ! j)) j)
                    ([4..<length (atlasInfo ?s)] @ [0, 1, 2, 3])) = [4, 4, 0, 1, 2, 3]"
    by (simp add: stateWith_fields quadFace_geom upt_conv_Cons numeral_2_eq_2)
  from inst have c1: "atlasFaceFillIndex initialState = 4" by blast
  show ?thesis using c1 h1 h2 c2 h4 h5 c3 c3' by simp
qed

text \<open>
  C5, as the code has it.  A frame whose slot lies inside the first buffer does not raise.
  It replaces the three bytes of the slot by the per-channel means of the readback, each
  rounded to the nearest integer (halves up), whatever the slot held before; every other
  byte of the buffer and every other buffer is kept, and the buffer's texture is marked
  for update.  The rounded means lie between 0 and 255, so storing them as bytes loses
  nothing.
\<close>

theorem texel_overwritten_with_rounded_mean:
  assumes "atlasFaceFillIndex s < length (atlasInfo s)"
    and "atlasStack s = first # others"
    and "slotFits (length (data first)) (atlasInfo s ! atlasFaceFillIndex s)"
  shows "\<exists>s'. tick inp s = Inr s' \<and>
           slotOf (atlasInfo s ! atlasFaceFillIndex s) + 3 \<le> length (data first) \<and>
           atlasStack s' =
             (if nextFillCount (atlasInfo s ! atlasFaceFillIndex s) = Some 0 \<and>
                 Suc (atlasFaceFillIndex s) mod length (atlasInfo s) = 4
              then promote else id)
               (\<lparr> data = (data first)
                   [slotOf (atlasInfo s ! atlasFaceFillIndex s) :=
                      word_of_int (mathRound (channelMean (readback inp) 0)),
                    slotOf (atlasInfo s ! atlasFaceFillIndex s) + 1 :=
                      word_of_int (mathRound (channelMean (readback inp) 1)),
                    slotOf (atlasInfo s ! atlasFaceFillIndex s) + 2 :=
                      word_of_int (mathRound (channelMean (readback inp) 2))],
                  needsUpdate = True \<rparr> # others) \<and>
           (\<forall>c. 0 \<le> mathRound (channelMean (readback inp) c) \<and>
                mathRound (channelMean (readback inp) c) \<le> 255)"
  using tick_result[OF assms, of inp] typedArraySet_slot(2)[OF assms(3)]
  by (simp add: writeSlot_def channelMean_bounds)

lemma writeSlot_nth:
  assumes "off + 3 \<le> length d"
  shows "writeSlot inp d off ! off = word_of_int (mathRound (channelMean (readback inp) 0))"
    and "writeSlot inp d off ! (off + 1) = word_of_int (mathRound (channelMean (readback inp) 1))"
    and "writeSlot inp d off ! (off + 2) = word_of_int (mathRound (channelMean (readback inp) 2))"
  using assms by (simp_all add: writeSlot_def)

lemma update3_nth:
  assumes "off + 3 \<le> length d"
  shows "map (\<lambda>i. d[off := a, off + 1 := b, off + 2 := c] ! i) [off, off + 1, off + 2] = [a, b, c]"
  using assms by simp

lemma atlas_size: "12 + 3 \<le> length (data (createAtlasTexture atlasWidth atlasHeight True))"
  by (simp add: atlasWidth_def atlasHeight_def)

theorem texel_overwritten_with_rounded_mean_witness:
  "atlasFaceFillIndex (stateWith (quadFace squarePositions flatNormals 4 2))
     < length (atlasInfo (stateWith (quadFace squarePositions flatNormals 4 2))) \<and>
   atlasStack (stateWith (quadFace squarePositions flatNormals 4 2)) =
     createAtlasTexture atlasWidth atlasHeight True #
     [createAtlasTexture atlasWidth atlasHeight False] \<and>
   slotFits (length (data (createAtlasTexture atlasWidth atlasHeight True)))
     (atlasInfo (stateWith (quadFace squarePositions flatNormals 4 2)) !
      atlasFaceFillIndex (stateWith (quadFace squarePositions flatNormals 4 2))) \<and>
   map_sum id (\<lambda>s'. (map (\<lambda>i. data (hd (atlasStack s')) ! i) [12, 13, 14],
                      needsUpdate (hd (atlasStack s'))))
     (tick (solid 200) (stateWith (quadFace squarePositions flatNormals 4 2))) =
     Inr ([200, 200, 200], True)"
proof -
  let ?f = "quadFace squarePositions flatNormals 4 2"
  let ?s = "stateWith ?f"
  let ?T = "createAtlasTexture atlasWidth atlasHeight True"
  have h1: "atlasFaceFillIndex ?s < length (atlasInfo ?s)"
    by (simp add: stateWith_fields)
  have h2: "atlasStack ?s = ?T # [createAtlasTexture atlasWidth atlasHeight False]"
    by (simp add: stateWith_fields)
  have h3: "slotFits (length (data ?T)) (atlasInfo ?s ! atlasFaceFillIndex ?s)"
    by (simp add: stateWith_fields stateWith_fit)
  have f: "atlasInfo ?s ! atlasFaceFillIndex ?s = ?f" by (simp add: stateWith_fields)
  have n: "nextFillCount ?f = Some 1" using quadFace_texel0(4)[of 2 squarePositions flatNormals 4] by simp
  have sl: "slotOf ?f = 12" by (simp add: quadFace_slot(2))
  have v: "word_of_int (mathRound (channelMean (readback (solid 200)) c)) = (200 :: 8 word)" for c
    by (simp add: channelMean_solid mathRound_def)
  from texel_overwritten_with_rounded_mean[OF h1 h2 h3, of "solid 200"]
  obtain s' where t: "tick (solid 200) ?s = Inr s'"
    and st: "atlasStack s' = [\<lparr> data = (data ?T)[12 := 200, 12 + 1 := 200, 12 + 2 := 200],
                needsUpdate = True \<rparr>, createAtlasTexture atlasWidth atlasHeight False]"
    unfolding f n sl v by auto
  have "map (\<lambda>i. data (hd (atlasStack s')) ! i) [12, 13, 14] = [200, 200, 200]"
    using update3_nth[of 12 "data ?T" 200 200 200] atlas_size unfolding st by simp
  then show ?thesis using h1 h2 h3 t st by simp
qed

lemma channelMean_onePixel: "channelMean (readback onePixel) 0 = 255 / 1024"
proof -
  have "(\<Sum>k < probeTargetSize * probeTargetSize.
            unat (if 4 * k + 0 = 0 then 255 else (0 :: 8 word))) =
        (\<Sum>k \<in> {..< probeTargetSize * probeTargetSize}. if k = 0 then 255 else 0)"
    by (rule sum.cong) simp_all
  also have "\<dots> = 255"
    by (simp add: sum.delta probeTargetSize_def)
  finally show ?thesis
    by (simp add: channelMean_def onePixel_def probeTargetSize_def)
qed

text \<open>
  C5 as stated fails: the stored value is the rounded mean, not the mean.  For a probe whose
  only non-zero byte is the red channel of one pixel, the mean of the red channel is
  255/1024 and the byte stored is 0.
\<close>

theorem rounded_mean_counterexample:
  "map_sum id (\<lambda>s'. data (hd (atlasStack s')) ! 12)
     (tick onePixel (stateWith (quadFace squarePositions flatNormals 4 2))) = Inr 0 \<and>
   channelMean (readback onePixel) 0 = 255 / 1024"
proof -
  have "writeSlot onePixel (data (createAtlasTexture atlasWidth atlasHeight True)) 12 ! 12 = 0"
    unfolding writeSlot_nth(1)[OF atlas_size] channelMean_onePixel
    by (simp add: mathRound_def)
  then show ?thesis
    unfolding stateWith_tick[of 2, simplified] channelMean_onePixel
    by simp
qed

lemma bilinear_parallelogram:
  assumes "c11 = vsub (vadd c10 c01) c00"
  shows "bilinear c00 c10 c01 c11 u v =
         vadd c00 (vadd (vscale u (vsub c10 c00)) (vscale v (vsub c01 c00)))"
  using assms
  by (cases c00; cases c10; cases c01)
     (simp add: bilinear_def vadd_def vsub_def vscale_def algebra_simps)

lemma placeProbe_eq:
  assumes "readVec3 (positionArray buf) (fi * 4 * 3) = Some c01"
    and "readVec3 (positionArray buf) (fi * 4 * 3 + 6) = Some c00"
    and "readVec3 (positionArray buf) (fi * 4 * 3 + 9) = Some c10"
    and "readVec3 (normalArray buf) (fi * 4 * 3) = Some n0"
  shows "placeProbe buf fi u v a =
     Some \<lparr> cam_position = vadd c00 (vadd (vscale u (vsub c10 c00)) (vscale v (vsub c01 c00))),
            cam_up = vsub (vscale (cos a) (vsub c10 c00)) (vscale (sin a) (vsub c01 c00)),
            cam_target = vadd (vadd c00 (vadd (vscale u (vsub c10 c00)) (vscale v (vsub c01 c00)))) n0 \<rparr>"
  using assms
  by (cases c00; cases c10; cases c01; cases n0)
     (simp add: placeProbe_def Let_def vadd_def vsub_def vscale_def algebra_simps)

text \<open>
  C3, as the code has it.  Let the frame's face have the three quad corners that the code
  reads and its first normal in range, and let \<open>(u, v)\<close> be the centre of the texel in the
  face's own coordinates.  The camera is placed exactly at
  \<open>origin + u * (cornerU - origin) + v * (cornerV - origin)\<close>, with no offset; it looks at
  that point plus the normal stored for the face's first vertex; and its up vector is
  \<open>cos a * dU - sin a * dV\<close> for the edge vectors \<open>dU\<close>, \<open>dV\<close> of the face and the angle
  \<open>a\<close> = \<^verbatim>\<open>Math.random() * Math.PI\<close> drawn in this frame.  When the fourth corner of the
  quad completes the parallelogram of the other three, the position is the bilinear
  interpolation of the four corner positions at \<open>(u, v)\<close>.
\<close>

theorem probe_placement:
  assumes "atlasFaceFillIndex s < length (atlasInfo s)"
    and "atlasStack s = first # others"
    and "slotFits (length (data first)) (atlasInfo s ! atlasFaceFillIndex s)"
    and "f = atlasInfo s ! atlasFaceFillIndex s"
    and "pU f = Some u" and "pV f = Some v"
    and "readVec3 (positionArray (buffer f)) (faceIndex f * 4 * 3) = Some c01"
    and "readVec3 (positionArray (buffer f)) (faceIndex f * 4 * 3 + 6) = Some c00"
    and "readVec3 (positionArray (buffer f)) (faceIndex f * 4 * 3 + 9) = Some c10"
    and "readVec3 (normalArray (buffer f)) (faceIndex f * 4 * 3) = Some n0"
  shows "\<exists>s'. tick inp s = Inr s' \<and>
           probeCam s' = Some
             \<lparr> cam_position = vadd c00 (vadd (vscale u (vsub c10 c00)) (vscale v (vsub c01 c00))),
               cam_up = vsub (vscale (cos (rnd inp * pi)) (vsub c10 c00))
                             (vscale (sin (rnd inp * pi)) (vsub c01 c00)),
               cam_target = vadd (vadd c00 (vadd (vscale u (vsub c10 c00))
                                                 (vscale v (vsub c01 c00)))) n0 \<rparr> \<and>
           (readVec3 (positionArray (buffer f)) (faceIndex f * 4 * 3 + 3) =
              Some (vsub (vadd c10 c01) c00) \<longrightarrow>
            map_option cam_position (probeCam s') =
              Some (bilinear c00 c10 c01 (vsub (vadd c10 c01) c00) u v))"
proof -
  have "probeFor f (rnd inp) = Some
             \<lparr> cam_position = vadd c00 (vadd (vscale u (vsub c10 c00)) (vscale v (vsub c01 c00))),
               cam_up = vsub (vscale (cos (rnd inp * pi)) (vsub c10 c00))
                             (vscale (sin (rnd inp * pi)) (vsub c01 c00)),
               cam_target = vadd (vadd c00 (vadd (vscale u (vsub c10 c00))
                                                 (vscale v (vsub c01 c00)))) n0 \<rparr>"
    using assms(5,6) placeProbe_eq[OF assms(7-10)]
    by (simp add: probeFor_def)
  then show ?thesis
    using tick_result[OF assms(1-3), of inp] assms(4)
      bilinear_parallelogram[of "vsub (vadd c10 c01) c00" c10 c01 c00 u v]
    by simp
qed

theorem probe_placement_witness:
  "atlasFaceFillIndex (stateWith (quadFace squarePositions flatNormals 4 2))
     < length (atlasInfo (stateWith (quadFace squarePositions flatNormals 4 2))) \<and>
   pU (quadFace squarePositions flatNormals 4 2) = Some (1 / 4) \<and>
   pV (quadFace squarePositions flatNormals 4 2) = Some (1 / 2) \<and>
   readVec3 squarePositions 3 = Some (vsub (vadd (1, 0, 0) (0, 1, 0)) (0, 0, 0)) \<and>
   map_sum id probeCam
     (tick (eighthTurn 200) (stateWith (quadFace squarePositions flatNormals 4 2))) =
     Inr (Some \<lparr> cam_position = (1 / 4, 1 / 2, 0), cam_up = (sqrt 2 / 2, - (sqrt 2 / 2), 0),
                  cam_target = (1 / 4, 1 / 2, 1) \<rparr>) \<and>
   bilinear (0, 0, 0) (1, 0, 0) (0, 1, 0) (1, 1, 0) (1 / 4) (1 / 2) = (1 / 4, 1 / 2, 0)"
proof -
  let ?f = "quadFace squarePositions flatNormals 4 2"
  let ?s = "stateWith ?f"
  have h1: "atlasFaceFillIndex ?s < length (atlasInfo ?s)"
    by (simp add: stateWith_fields)
  have h2: "atlasStack ?s = createAtlasTexture atlasWidth atlasHeight True #
                            [createAtlasTexture atlasWidth atlasHeight False]"
    by (simp add: stateWith_fields)
  have h3: "slotFits (length (data (createAtlasTexture atlasWidth atlasHeight True)))
              (atlasInfo ?s ! atlasFaceFillIndex ?s)"
    by (simp add: stateWith_fields stateWith_fit)
  have h4: "?f = atlasInfo ?s ! atlasFaceFillIndex ?s"
    by (simp add: stateWith_fields)
  have h5: "pU ?f = Some (1 / 4)" and h6: "pV ?f = Some (1 / 2)"
    by (simp_all add: quadFace_texel0)
  have h7: "readVec3 (positionArray (buffer ?f)) (faceIndex ?f * 4 * 3) = Some (0, 1, 0)"
    and h9: "readVec3 (positionArray (buffer ?f)) (faceIndex ?f * 4 * 3 + 6) = Some (0, 0, 0)"
    and h10: "readVec3 (positionArray (buffer ?f)) (faceIndex ?f * 4 * 3 + 9) = Some (1, 0, 0)"
    and h11: "readVec3 (normalArray (buffer ?f)) (faceIndex ?f * 4 * 3) = Some (0, 0, 1)"
    by (simp_all add: quadFace_buffer square_reads)
  have h8: "readVec3 squarePositions 3 = Some (vsub (vadd (1, 0, 0) (0, 1, 0)) (0, 0, 0))"
    by (simp add: square_reads vsub_def vadd_def)
  have a: "rnd (eighthTurn 200) * pi = pi / 4"
    by (simp add: eighthTurn_def)
  from probe_placement[OF h1 h2 h3 h4 h5 h6 h7 h9 h10 h11, of "eighthTurn 200"] h8
  have "map_sum id probeCam (tick (eighthTurn 200) ?s) =
     Inr (Some \<lparr> cam_position = (1 / 4, 1 / 2, 0), cam_up = (sqrt 2 / 2, - (sqrt 2 / 2), 0),
                  cam_target = (1 / 4, 1 / 2, 1) \<rparr>) \<and>
    bilinear (0, 0, 0) (1, 0, 0) (0, 1, 0) (1, 1, 0) (1 / 4) (1 / 2) = (1 / 4, 1 / 2, 0)"
    unfolding a
    by (auto simp: bilinear_def vadd_def vsub_def vscale_def cos_45 sin_45 quadFace_buffer)
  with h1 h5 h6 h8 show ?thesis by simp
qed

lemma probeFor_single:
  assumes "readVec3 pos 0 = Some c01" and "readVec3 pos 6 = Some c00"
    and "readVec3 pos 9 = Some c10" and "readVec3 nrm 0 = Some n0"
  shows "probeFor (quadFace pos nrm x 1) 0 =
        Some \<lparr> cam_position = vadd c00 (vadd (vscale (1 / 2) (vsub c10 c00))
                                              (vscale (1 / 2) (vsub c01 c00))),
            cam_up = vsub c10 c00,
            cam_target = vadd (vadd c00 (vadd (vscale (1 / 2) (vsub c10 c00))
                                              (vscale (1 / 2) (vsub c01 c00)))) n0 \<rparr>"
proof -
  have "placeProbe (buffer (quadFace pos nrm x 1)) (faceIndex (quadFace pos nrm x 1))
          (1 / 2) (1 / 2) 0 =
        Some \<lparr> cam_position = vadd c00 (vadd (vscale (1 / 2) (vsub c10 c00))
                                              (vscale (1 / 2) (vsub c01 c00))),
            cam_up = vsub (vscale (cos 0) (vsub c10 c00)) (vscale (sin 0) (vsub c01 c00)),
            cam_target = vadd (vadd c00 (vadd (vscale (1 / 2) (vsub c10 c00))
                                              (vscale (1 / 2) (vsub c01 c00)))) n0 \<rparr>"
    by (rule placeProbe_eq) (simp_all add: quadFace_buffer assms)
  moreover have "vsub (vscale (cos 0) (vsub c10 c00)) (vscale (sin 0) (vsub c01 c00)) =
                 vsub c10 c00"
    by (cases c10; cases c00; cases c01) (simp add: vsub_def vscale_def)
  ultimately show ?thesis
    by (simp add: probeFor_def quadFace_texel0)
qed

text \<open>
  C3 as stated fails.  On a unit square whose corner normals differ, the camera sits at the
  interpolated surface point itself, \<open>(1/2, 1/2, 0)\<close>, and looks along the first vertex's
  normal \<open>(0, 0, 1)\<close>, while the bilinear interpolation of the four normals is
  \<open>(3/4, 0, 1/4)\<close>.  On a trapezoid the camera is at \<open>(1/2, 1/2, 0)\<close>, while the bilinear
  interpolation of the four corners is \<open>(3/4, 1/2, 0)\<close>: the fourth corner is never read.
\<close>

theorem probe_placement_counterexample:
  "map_sum id probeCam (tick (solid 200) (stateWith (quadFace squarePositions roundNormals 4 1))) =
     Inr (Some \<lparr> cam_position = (1 / 2, 1 / 2, 0), cam_up = (1, 0, 0),
                  cam_target = (1 / 2, 1 / 2, 1) \<rparr>) \<and>
   bilinear (0, 0, 0) (1, 0, 0) (0, 1, 0) (1, 1, 0) (1 / 2) (1 / 2) = (1 / 2, 1 / 2, 0) \<and>
   bilinear (1, 0, 0) (1, 0, 0) (0, 0, 1) (1, 0, 0) (1 / 2) (1 / 2) = (3 / 4, 0, 1 / 4) \<and>
   map_sum id probeCam (tick (solid 200) (stateWith (quadFace skewPositions flatNormals 4 1))) =
     Inr (Some \<lparr> cam_position = (1 / 2, 1 / 2, 0), cam_up = (1, 0, 0),
                  cam_target = (1 / 2, 1 / 2, 1) \<rparr>) \<and>
   bilinear (0, 0, 0) (1, 0, 0) (0, 1, 0) (2, 1, 0) (1 / 2) (1 / 2) = (3 / 4, 1 / 2, 0)"
proof -
  have t: "\<And>pos nrm. map_sum id probeCam (tick (solid 200) (stateWith (quadFace pos nrm 4 1))) =
             Inr (probeFor (quadFace pos nrm 4 1) 0)"
  proof -
    fix pos nrm
    let ?s = "stateWith (quadFace pos nrm 4 1)"
    have h1: "atlasFaceFillIndex ?s < length (atlasInfo ?s)"
      by (simp add: stateWith_fields)
    have h2: "atlasStack ?s = createAtlasTexture atlasWidth atlasHeight True #
                            [createAtlasTexture atlasWidth atlasHeight False]"
      by (simp add: stateWith_fields)
    have h3: "slotFits (length (data (createAtlasTexture atlasWidth atlasHeight True)))
              (atlasInfo ?s ! atlasFaceFillIndex ?s)"
      by (simp add: stateWith_fields stateWith_fit)
    show "map_sum id probeCam (tick (solid 200) ?s) = Inr (probeFor (quadFace pos nrm 4 1) 0)"
      by (simp only: tick_result[OF h1 h2 h3]) (simp add: stateWith_fields solid_def)
  qed
  show ?thesis
    unfolding t probeFor_single[OF square_reads(1,3,4,10)]
      probeFor_single[OF square_reads(5,7,8,9)]
    by (simp add: bilinear_def vadd_def vsub_def vscale_def)
qed

section \<open>Properties of the compositor\<close>

lemma readVec3_sample:
  "4 * i + 3 \<le> length d \<Longrightarrow> readVec3 d (4 * i) = Some (sampleTexel d i)"
  by (simp add: readVec3_def readAt_def sampleTexel_def)

lemma drawLayer_ready:
  assumes "layerReady n l" and "i < n"
  shows "drawLayer i l (Some (dr, dg, db, da)) =
     Some (case vadd (vscale (layerMultiplier l) (sampleTexel (layer_array l) i)) (dr, dg, db) of
             (r, g, b) \<Rightarrow> (r, g, b, 1 + da))"
proof -
  from assms obtain m where m: "layer_material l = Some m"
    and len: "4 * i + 3 \<le> length (layer_array l)"
    by (auto simp: layerReady_def)
  show ?thesis
    by (simp add: drawLayer_def m readVec3_sample[OF len] blendAdditive_def layerMultiplier_def
        sampleTexel_def vadd_def vscale_def)
qed

lemma fold_drawLayer:
  assumes "list_all (layerReady n) layers" and "i < n"
  shows "fold (drawLayer i) layers (Some (dr, dg, db, da)) =
     Some (case vadd (vsum (map (\<lambda>l. vscale (layerMultiplier l) (sampleTexel (layer_array l) i))
                              layers)) (dr, dg, db) of
             (r, g, b) \<Rightarrow> (r, g, b, real (length layers) + da))"
  using assms(1)
proof (induction layers arbitrary: dr dg db da)
  case Nil
  then show ?case by (simp add: vsum_def vadd_def)
next
  case (Cons l layers)
  then have r: "layerReady n l" and rs: "list_all (layerReady n) layers" by simp_all
  obtain sr sg sb where s: "vscale (layerMultiplier l) (sampleTexel (layer_array l) i) = (sr, sg, sb)"
    by (cases "vscale (layerMultiplier l) (sampleTexel (layer_array l) i)")
  obtain tr tg tb where t:
    "vsum (map (\<lambda>l. vscale (layerMultiplier l) (sampleTexel (layer_array l) i)) layers) = (tr, tg, tb)"
    by (cases "vsum (map (\<lambda>l. vscale (layerMultiplier l) (sampleTexel (layer_array l) i)) layers)")
  have v: "vsum (map (\<lambda>l. vscale (layerMultiplier l) (sampleTexel (layer_array l) i)) (l # layers))
           = (sr + tr, sg + tg, sb + tb)"
    using s t by (simp add: vsum_def vadd_def)
  show ?case
    unfolding v
    by (simp add: drawLayer_ready[OF r assms(2)] s Cons.IH[OF rs] t vadd_def algebra_simps)
qed

lemma those_map:
  "(\<And>x. x \<in> set xs \<Longrightarrow> f x = Some (g x)) \<Longrightarrow> those (map f xs) = Some (map g xs)"
  by (induction xs) simp_all

lemma render_ready:
  assumes "list_all (layerReady (w * h)) layers"
  shows "render g w h layers =
     Some (map (\<lambda>i. case vadd (vsum (map (\<lambda>l. vscale (layerMultiplier l)
                                                   (sampleTexel (layer_array l) i)) layers))
                                (clearColor g) of
                       (r, g', b) \<Rightarrow> (r, g', b, real (length layers) + clearAlpha g))
               [0..<w * h])"
  unfolding render_def
proof (rule those_map)
  fix i assume "i \<in> set [0..<w * h]"
  then have i: "i < w * h" by simp
  obtain cr cg cb where c: "clearColor g = (cr, cg, cb)" by (cases "clearColor g")
  show "renderTexel g layers i =
     Some (case vadd (vsum (map (\<lambda>l. vscale (layerMultiplier l)
                                                   (sampleTexel (layer_array l) i)) layers))
                                (clearColor g) of
                       (r, g', b) \<Rightarrow> (r, g', b, real (length layers) + clearAlpha g))"
    by (simp add: renderTexel_def c fold_drawLayer[OF assms i])
qed

lemma layerReady_update [simp]:
  "layerReady n (updateMultiplier mv l) = layerReady n l"
  "layerReady n (updateBase l) = layerReady n l"
  by (auto simp: layerReady_def updateMultiplier_def updateBase_def split: option.splits)

lemma array_update [simp]:
  "layer_array (updateMultiplier mv l) = layer_array l"
  "layer_array (updateBase l) = layer_array l"
  by (auto simp: updateMultiplier_def updateBase_def split: option.splits)

lemma updateBase_multiplier:
  "layer_material l \<noteq> None \<Longrightarrow> layerMultiplier (updateBase l) = 1"
  by (auto simp: updateBase_def layerMultiplier_def)

lemma updateMultiplier_value:
  "layer_material l \<noteq> None \<Longrightarrow> v \<noteq> 0 \<Longrightarrow> layerMultiplier (updateMultiplier (Some v) l) = v"
  by (auto simp: updateMultiplier_def layerMultiplier_def)

lemma updateMultiplier_zero:
  "layerMultiplier (updateMultiplier (Some 0) l) = layerMultiplier l"
  "layerMultiplier (updateMultiplier None l) = layerMultiplier l"
  by (auto simp: updateMultiplier_def layerMultiplier_def split: option.splits)

lemma tick_layers:
  assumes "orthoSceneMounted s"
  shows "baseLayer (compositorTick factors s) = updateBase (baseLayer s)"
    and "factorLayers (compositorTick factors s) =
           map (\<lambda>(factorName, l). (factorName, updateMultiplier (factorValue factors factorName) l))
               (factorLayers s)"
    and "orthoTarget (compositorTick factors s) =
           render ((gl s)\<lparr>autoClear := True\<rparr>) (lightMapWidth s) (lightMapHeight s)
             (baseLayer (compositorTick factors s) # map snd (factorLayers (compositorTick factors s)))"
  using assms by (simp_all add: compositorTick_def Let_def)

lemma rgb_clear:
  "rgb (case vadd v (0, 0, 0) of (r, g, b) \<Rightarrow> (r, g, b, a)) = v"
  by (cases v) (simp add: rgb_def vadd_def)

text \<open>
  What a frame composites.  Let the compositor's scene be mounted with every layer material
  attached and every layer array covering the light map, and let the renderer clear to
  black (its default, which this code never changes).  Then the frame produces a target in
  which every texel is the sum, over the base layer and the factor layers, of the layer's
  colour at that texel times the multiplier uniform of the layer's material; the target
  starts from zero.  The base layer's multiplier is 1, and a factor layer's multiplier is
  the value supplied for its name whenever that value is a non-zero number.
\<close>

lemma composite_formula:
  assumes "orthoSceneMounted s"
    and "list_all (layerReady (lightMapWidth s * lightMapHeight s))
           (baseLayer s # map snd (factorLayers s))"
    and "clearColor (gl s) = (0, 0, 0)"
  shows "\<exists>img. orthoTarget (compositorTick factors s) = Some img \<and>
      length img = lightMapWidth s * lightMapHeight s \<and>
      (\<forall>i < lightMapWidth s * lightMapHeight s.
         rgb (img ! i) =
           vsum (map (\<lambda>l. vscale (layerMultiplier l) (sampleTexel (layer_array l) i))
                  (baseLayer (compositorTick factors s) #
                   map snd (factorLayers (compositorTick factors s))))) \<and>
      layerMultiplier (baseLayer (compositorTick factors s)) = 1 \<and>
      layer_array (baseLayer (compositorTick factors s)) = layer_array (baseLayer s) \<and>
      length (factorLayers (compositorTick factors s)) = length (factorLayers s) \<and>
      (\<forall>k < length (factorLayers s).
         fst (factorLayers (compositorTick factors s) ! k) = fst (factorLayers s ! k) \<and>
         layer_array (snd (factorLayers (compositorTick factors s) ! k)) =
           layer_array (snd (factorLayers s ! k)) \<and>
         (\<forall>v. factorValue factors (fst (factorLayers s ! k)) = Some v \<and> v \<noteq> 0 \<longrightarrow>
              layerMultiplier (snd (factorLayers (compositorTick factors s) ! k)) = v))"
proof -
  let ?n = "lightMapWidth s * lightMapHeight s"
  let ?s' = "compositorTick factors s"
  let ?layers = "baseLayer ?s' # map snd (factorLayers ?s')"
  let ?g = "(gl s)\<lparr>autoClear := True\<rparr>"
  have ready: "list_all (layerReady ?n) ?layers"
    using assms(2) by (simp add: tick_layers[OF assms(1)] list_all_iff split_beta)
  let ?img = "map (\<lambda>i. case vadd (vsum (map (\<lambda>l. vscale (layerMultiplier l)
                                                   (sampleTexel (layer_array l) i)) ?layers))
                                (clearColor ?g) of
                       (r, g', b) \<Rightarrow> (r, g', b, real (length ?layers) + clearAlpha ?g))
               [0..<?n]"
  have t: "orthoTarget ?s' = Some ?img"
    unfolding tick_layers(3)[OF assms(1)] by (rule render_ready[OF ready])
  have px: "rgb (?img ! i) =
           vsum (map (\<lambda>l. vscale (layerMultiplier l) (sampleTexel (layer_array l) i)) ?layers)"
    if "i < ?n" for i
    using that assms(3) by (simp add: rgb_clear del: list.map)
  have b: "layerMultiplier (baseLayer ?s') = 1"
    using assms(2) by (simp add: tick_layers[OF assms(1)] updateBase_multiplier layerReady_def)
  have f: "fst (factorLayers ?s' ! k) = fst (factorLayers s ! k) \<and>
         layer_array (snd (factorLayers ?s' ! k)) = layer_array (snd (factorLayers s ! k)) \<and>
         (\<forall>v. factorValue factors (fst (factorLayers s ! k)) = Some v \<and> v \<noteq> 0 \<longrightarrow>
              layerMultiplier (snd (factorLayers ?s' ! k)) = v)"
    if "k < length (factorLayers s)" for k
  proof -
    have "snd (factorLayers s ! k) \<in> set (map snd (factorLayers s))" using that by simp
    then have "layer_material (snd (factorLayers s ! k)) \<noteq> None"
      using assms(2) by (auto simp: list_all_iff layerReady_def)
    then show ?thesis using that
      by (simp add: tick_layers[OF assms(1)] split_beta updateMultiplier_value)
  qed
  show ?thesis
    using t px b f by (simp add: tick_layers(1,2)[OF assms(1)])
qed

lemma tick_image:
  assumes "orthoSceneMounted s"
    and "list_all (layerReady (lightMapWidth s * lightMapHeight s))
           (baseLayer s # map snd (factorLayers s))"
    and "clearColor (gl s) = (0, 0, 0)"
  shows "map_option (map rgb) (orthoTarget (compositorTick factors s)) =
     Some (map (\<lambda>i. vsum (map (\<lambda>l. vscale (layerMultiplier l) (sampleTexel (layer_array l) i))
                  (baseLayer (compositorTick factors s) #
                   map snd (factorLayers (compositorTick factors s)))))
            [0..<lightMapWidth s * lightMapHeight s])"
proof -
  let ?n = "lightMapWidth s * lightMapHeight s"
  let ?s' = "compositorTick factors s"
  let ?layers = "baseLayer ?s' # map snd (factorLayers ?s')"
  have ready: "list_all (layerReady ?n) ?layers"
    using assms(2) by (simp add: tick_layers[OF assms(1)] list_all_iff split_beta)
  show ?thesis
    unfolding tick_layers(3)[OF assms(1)] render_ready[OF ready]
    using assms(3) by (simp add: rgb_clear comp_def del: list.map)
qed

lemma sample_fill:
  assumes "i < n"
  shows "sampleTexel (concat (replicate n [r, g, b, a])) i = (r, g, b)"
  using assms
proof (induction n arbitrary: i)
  case 0
  then show ?case by simp
next
  case (Suc n)
  show ?case
  proof (cases i)
    case 0
    then show ?thesis by (simp add: sampleTexel_def)
  next
    case (Suc j)
    then have "j < n" using Suc.prems by simp
    from Suc.IH[OF this] show ?thesis using Suc
      by (simp add: sampleTexel_def nth_Cons')
  qed
qed

lemma fillLayer_fields:
  "layer_material (fillLayer c l) = layer_material l"
  "layerMultiplier (fillLayer c l) = layerMultiplier l"
  "length (layer_array (fillLayer c l)) = 4 * (length (layer_array l) div 4)"
  "i < length (layer_array l) div 4 \<Longrightarrow> sampleTexel (layer_array (fillLayer c l)) i = c"
  by (cases c; simp add: fillLayer_def layerMultiplier_def length_concat sum_list_replicate sample_fill)+

lemma scenario_fields:
  "orthoSceneMounted (scenario bc fc)"
  "lightMapWidth (scenario bc fc) = 8" "lightMapHeight (scenario bc fc) = 8"
  "clearColor (gl (scenario bc fc)) = (0, 0, 0)"
  "baseLayer (scenario bc fc) =
     fillLayer bc \<lparr> layer_array = createRendererTexture 8 8,
                    layer_material = Some \<lparr> multiplier_value = 0 \<rparr> \<rparr>"
  "factorLayers (scenario bc fc) =
     [(''sun'', fillLayer fc \<lparr> layer_array = createRendererTexture 8 8,
                    layer_material = Some \<lparr> multiplier_value = 0 \<rparr> \<rparr>)]"
  by (simp_all add: scenario_def mountCompositor_def defaultGL_def Let_def)

lemma blank_layer: "length (createRendererTexture 8 8) = 256"
  by (simp add: createRendererTexture_def)

lemma scenario_ready:
  "list_all (layerReady (lightMapWidth (scenario bc fc) * lightMapHeight (scenario bc fc)))
     (baseLayer (scenario bc fc) # map snd (factorLayers (scenario bc fc)))"
  by (simp add: scenario_fields layerReady_def fillLayer_fields blank_layer)

lemma scenario_tick_layers:
  "baseLayer (compositorTick factors (scenario bc fc)) =
     updateBase (fillLayer bc \<lparr> layer_array = createRendererTexture 8 8,
                    layer_material = Some \<lparr> multiplier_value = 0 \<rparr> \<rparr>)"
  "factorLayers (compositorTick factors (scenario bc fc)) =
     [(''sun'', updateMultiplier (factorValue factors ''sun'')
        (fillLayer fc \<lparr> layer_array = createRendererTexture 8 8,
                    layer_material = Some \<lparr> multiplier_value = 0 \<rparr> \<rparr>))]"
  by (simp_all add: tick_layers[OF scenario_fields(1)] scenario_fields)

text \<open>
  The scenario of the specification: base buffer \<open>(1, 1, 1)\<close>, one factor buffer
  \<open>(0, 0, 0)\<close> with multiplier 2; every texel of the output is \<open>(1, 1, 1)\<close>.
\<close>

lemma composite_scenario:
  "orthoSceneMounted (scenario (1, 1, 1) (0, 0, 0)) \<and>
   list_all (layerReady (lightMapWidth (scenario (1, 1, 1) (0, 0, 0)) *
                         lightMapHeight (scenario (1, 1, 1) (0, 0, 0))))
     (baseLayer (scenario (1, 1, 1) (0, 0, 0)) #
      map snd (factorLayers (scenario (1, 1, 1) (0, 0, 0)))) \<and>
   clearColor (gl (scenario (1, 1, 1) (0, 0, 0))) = (0, 0, 0) \<and>
   factorValue (Some [''sun'' \<mapsto> 2]) ''sun'' = Some 2 \<and>
   map_option (map rgb)
     (orthoTarget (compositorTick (Some [''sun'' \<mapsto> 2]) (scenario (1, 1, 1) (0, 0, 0)))) =
     Some (replicate 64 (1, 1, 1)) \<and>
   multiplierOf (compositorTick (Some [''sun'' \<mapsto> 2]) (scenario (1, 1, 1) (0, 0, 0))) ''sun''
     = Some 2"
proof -
  let ?s = "scenario (1, 1, 1) (0, 0, 0)"
  let ?f = "Some [''sun'' \<mapsto> (2 :: real)]"
  let ?s' = "compositorTick ?f ?s"
  have h1: "orthoSceneMounted ?s" by (rule scenario_fields)
  have h2: "list_all (layerReady (lightMapWidth ?s * lightMapHeight ?s))
              (baseLayer ?s # map snd (factorLayers ?s))" by (rule scenario_ready)
  have h3: "clearColor (gl ?s) = (0, 0, 0)" by (rule scenario_fields)
  have fv: "factorValue ?f ''sun'' = Some 2" by (simp add: factorValue_def)
  from composite_formula[OF h1 h2 h3, of ?f] obtain img where
    t: "orthoTarget ?s' = Some img" and len: "length img = 64"
    and px: "\<forall>i < 64. rgb (img ! i) =
           vsum (map (\<lambda>l. vscale (layerMultiplier l) (sampleTexel (layer_array l) i))
                  (baseLayer ?s' # map snd (factorLayers ?s')))"
    and bm: "layerMultiplier (baseLayer ?s') = 1"
    and fm: "\<forall>k < length (factorLayers ?s).
         fst (factorLayers ?s' ! k) = fst (factorLayers ?s ! k) \<and>
         layer_array (snd (factorLayers ?s' ! k)) = layer_array (snd (factorLayers ?s ! k)) \<and>
         (\<forall>v. factorValue ?f (fst (factorLayers ?s ! k)) = Some v \<and> v \<noteq> 0 \<longrightarrow>
              layerMultiplier (snd (factorLayers ?s' ! k)) = v)"
    by (auto simp: scenario_fields(2,3))
  from fm[rule_format, of 0] fv have m2: "layerMultiplier (snd (factorLayers ?s' ! 0)) = 2"
    by (simp add: scenario_fields)
  have fl: "factorLayers ?s' = [(''sun'', snd (factorLayers ?s' ! 0))]"
    by (simp add: scenario_tick_layers)
  have "rgb (img ! i) = (1, 1, 1)" if "i < 64" for i
  proof -
    have "rgb (img ! i) = vsum (map (\<lambda>l. vscale (layerMultiplier l) (sampleTexel (layer_array l) i))
                  (baseLayer ?s' # map snd (factorLayers ?s')))"
      using px that by blast
    also have "\<dots> = vadd (vscale 1 (1, 1, 1)) (vadd (vscale 2 (0, 0, 0)) (0, 0, 0))"
      using that m2 bm
      by (subst fl) (simp add: vsum_def scenario_tick_layers fillLayer_fields blank_layer)
    finally show ?thesis by (simp add: vadd_def vscale_def)
  qed
  then have "map rgb img = replicate 64 (1, 1, 1)"
    using len by (simp add: list_eq_iff_nth_eq)
  moreover have "multiplierOf ?s' ''sun'' = Some 2"
    using m2 by (simp add: multiplierOf_def scenario_tick_layers updateMultiplier_def
        fillLayer_fields fv layerMultiplier_def)
  ultimately show ?thesis using h1 h2 h3 fv t by simp
qed

lemma tick_preserves:
  "orthoSceneMounted (compositorTick factors s) = orthoSceneMounted s"
  "lightMapWidth (compositorTick factors s) = lightMapWidth s"
  "lightMapHeight (compositorTick factors s) = lightMapHeight s"
  "clearColor (gl (compositorTick factors s)) = clearColor (gl s)"
  by (simp_all add: compositorTick_def Let_def)

lemma tick_ready:
  assumes "list_all (layerReady n) (baseLayer s # map snd (factorLayers s))"
  shows "list_all (layerReady n)
           (baseLayer (compositorTick factors s) # map snd (factorLayers (compositorTick factors s)))"
proof (cases "orthoSceneMounted s")
  case True
  then show ?thesis using assms
    by (simp add: tick_layers[OF True] list_all_iff split_beta)
next
  case False
  then show ?thesis using assms by (simp add: compositorTick_def)
qed

lemma two_ticks:
  fixes v :: real
  assumes "v \<noteq> 0"
  shows "factorLayers (compositorTick (Some [''sun'' \<mapsto> v]) (scenario bc fc)) =
           [(''sun'', updateMultiplier (Some v)
              (fillLayer fc \<lparr> layer_array = createRendererTexture 8 8,
                    layer_material = Some \<lparr> multiplier_value = 0 \<rparr> \<rparr>))]"
    and "factorLayers (compositorTick (Some [''sun'' \<mapsto> w])
           (compositorTick (Some [''sun'' \<mapsto> v]) (scenario bc fc))) =
           [(''sun'', updateMultiplier (Some w) (updateMultiplier (Some v)
              (fillLayer fc \<lparr> layer_array = createRendererTexture 8 8,
                    layer_material = Some \<lparr> multiplier_value = 0 \<rparr> \<rparr>)))]"
    and "baseLayer (compositorTick (Some [''sun'' \<mapsto> w])
           (compositorTick (Some [''sun'' \<mapsto> v]) (scenario bc fc))) =
           updateBase (updateBase
              (fillLayer bc \<lparr> layer_array = createRendererTexture 8 8,
                    layer_material = Some \<lparr> multiplier_value = 0 \<rparr> \<rparr>))"
    and "layerMultiplier (updateMultiplier (Some v)
              (fillLayer fc \<lparr> layer_array = createRendererTexture 8 8,
                    layer_material = Some \<lparr> multiplier_value = 0 \<rparr> \<rparr>)) = v"
proof -
  let ?s1 = "compositorTick (Some [''sun'' \<mapsto> v]) (scenario bc fc)"
  let ?L = "fillLayer fc \<lparr> layer_array = createRendererTexture 8 8,
                    layer_material = Some \<lparr> multiplier_value = 0 \<rparr> \<rparr>"
  have m1: "orthoSceneMounted ?s1" by (simp add: tick_preserves scenario_fields)
  show f1: "factorLayers ?s1 = [(''sun'', updateMultiplier (Some v) ?L)]"
    by (simp add: scenario_tick_layers factorValue_def)
  show "factorLayers (compositorTick (Some [''sun'' \<mapsto> w]) ?s1) =
           [(''sun'', updateMultiplier (Some w) (updateMultiplier (Some v) ?L))]"
    by (simp add: tick_layers[OF m1] f1 factorValue_def)
  show "baseLayer (compositorTick (Some [''sun'' \<mapsto> w]) ?s1) =
           updateBase (updateBase
              (fillLayer bc \<lparr> layer_array = createRendererTexture 8 8,
                    layer_material = Some \<lparr> multiplier_value = 0 \<rparr> \<rparr>))"
    by (simp add: tick_layers[OF m1] scenario_tick_layers)
  have "layer_material ?L \<noteq> None" by (simp add: fillLayer_fields)
  then show "layerMultiplier (updateMultiplier (Some v) ?L) = v"
    using assms by (rule updateMultiplier_value)
qed

lemma multiplierOf_single:
  "factorLayers s = [(''sun'', updateMultiplier mv l)] \<Longrightarrow> layer_material l \<noteq> None \<Longrightarrow>
   multiplierOf s ''sun'' = Some (layerMultiplier (updateMultiplier mv l))"
  by (auto simp: multiplierOf_def layerMultiplier_def updateMultiplier_def split: option.splits)

lemma material_kept:
  "layer_material (updateMultiplier mv l) \<noteq> None \<longleftrightarrow> layer_material l \<noteq> None"
  by (auto simp: updateMultiplier_def split: option.splits)

text \<open>
  C6 fails on the code when a layer's current multiplier is zero after it was not.  With
  the factor buffer \<open>(1, 1, 1)\<close> over a black base, a frame with multiplier 2 followed by
  a frame with multiplier 0 composites \<open>(2, 2, 2)\<close> in the second frame: the sampled colour
  is multiplied by 2, not by the layer's current multiplier 0, which would give
  \<open>(0, 0, 0)\<close>.
\<close>

theorem stale_multiplier_in_output:
  "factorValue (Some [''sun'' \<mapsto> 0]) ''sun'' = Some 0 \<and>
   map_option (map rgb) (orthoTarget (compositorTick (Some [''sun'' \<mapsto> 0])
      (compositorTick (Some [''sun'' \<mapsto> 2]) (scenario (0, 0, 0) (1, 1, 1))))) =
     Some (replicate 64 (2, 2, 2))"
proof -
  let ?s = "scenario (0, 0, 0) (1, 1, 1)"
  let ?f2 = "Some [''sun'' \<mapsto> (2 :: real)]"
  let ?f0 = "Some [''sun'' \<mapsto> (0 :: real)]"
  let ?s1 = "compositorTick ?f2 ?s"
  let ?s2 = "compositorTick ?f0 ?s1"
  let ?L = "fillLayer (1, 1, 1) \<lparr> layer_array = createRendererTexture 8 8,
                    layer_material = Some \<lparr> multiplier_value = 0 \<rparr> \<rparr>"
  have m1: "orthoSceneMounted ?s1" by (simp add: tick_preserves scenario_fields)
  have f2: "factorLayers ?s2 = [(''sun'', updateMultiplier (Some 0) (updateMultiplier (Some 2) ?L))]"
    by (rule two_ticks(2)) simp
  have b2: "baseLayer ?s2 = updateBase (updateBase (fillLayer (0, 0, 0)
              \<lparr> layer_array = createRendererTexture 8 8,
                layer_material = Some \<lparr> multiplier_value = 0 \<rparr> \<rparr>))"
    by (rule two_ticks(3)) simp
  have v1: "layerMultiplier (updateMultiplier (Some 2) ?L) = 2"
    by (rule two_ticks(4)) simp
  have v2: "layerMultiplier (updateMultiplier (Some 0) (updateMultiplier (Some 2) ?L)) = 2"
    by (simp only: updateMultiplier_zero v1)
  have r1: "list_all (layerReady (lightMapWidth ?s1 * lightMapHeight ?s1))
              (baseLayer ?s1 # map snd (factorLayers ?s1))"
    unfolding tick_preserves by (rule tick_ready[OF scenario_ready])
  have c1: "clearColor (gl ?s1) = (0, 0, 0)" by (simp add: tick_preserves scenario_fields)
  have "map (\<lambda>i. vsum (map (\<lambda>l. vscale (layerMultiplier l) (sampleTexel (layer_array l) i))
                  (baseLayer ?s2 # map snd (factorLayers ?s2))))
            [0..<64] = map (\<lambda>i. (2, 2, 2)) [0..<64]"
    by (rule map_cong[OF refl])
       (simp add: f2 b2 v2 vsum_def fillLayer_fields blank_layer vadd_def vscale_def)
  moreover have "map_option (map rgb) (orthoTarget ?s2) =
     Some (map (\<lambda>i. vsum (map (\<lambda>l. vscale (layerMultiplier l) (sampleTexel (layer_array l) i))
                  (baseLayer ?s2 # map snd (factorLayers ?s2))))
            [0..<lightMapWidth ?s1 * lightMapHeight ?s1])"
    by (rule tick_image[OF m1 r1 c1])
  ultimately have "map_option (map rgb) (orthoTarget ?s2) = Some (replicate 64 (2, 2, 2))"
    by (simp add: tick_preserves scenario_fields map_replicate_const)
  then show ?thesis by (simp add: factorValue_def)
qed

text \<open>
  C7 fails on the code for the value zero.  After a frame with multiplier 2 the uniform is
  2; an edit to 3 is in the uniform after the next frame; an edit to 0 is not: the uniform
  stays at 2.
\<close>

theorem zero_multiplier_keeps_previous_value:
  "multiplierOf (compositorTick (Some [''sun'' \<mapsto> 2]) (scenario (0, 0, 0) (1, 1, 1))) ''sun''
     = Some 2 \<and>
   multiplierOf (compositorTick (Some [''sun'' \<mapsto> 3])
      (compositorTick (Some [''sun'' \<mapsto> 2]) (scenario (0, 0, 0) (1, 1, 1)))) ''sun'' = Some 3 \<and>
   multiplierOf (compositorTick (Some [''sun'' \<mapsto> 0])
      (compositorTick (Some [''sun'' \<mapsto> 2]) (scenario (0, 0, 0) (1, 1, 1)))) ''sun'' = Some 2"
proof -
  let ?L = "fillLayer (1, 1, 1) \<lparr> layer_array = createRendererTexture 8 8,
                    layer_material = Some \<lparr> multiplier_value = 0 \<rparr> \<rparr>"
  have mat: "layer_material ?L \<noteq> None" by (simp add: fillLayer_fields)
  have mat2: "layer_material (updateMultiplier (Some 2) ?L) \<noteq> None"
    by (rule iffD2[OF material_kept mat])
  have v1: "layerMultiplier (updateMultiplier (Some 2) ?L) = 2"
    by (rule two_ticks(4)) simp
  have t1: "factorLayers (compositorTick (Some [''sun'' \<mapsto> 2]) (scenario (0, 0, 0) (1, 1, 1))) =
           [(''sun'', updateMultiplier (Some 2) ?L)]"
    by (rule two_ticks(1)) simp
  have t2: "factorLayers (compositorTick (Some [''sun'' \<mapsto> w])
           (compositorTick (Some [''sun'' \<mapsto> 2]) (scenario (0, 0, 0) (1, 1, 1)))) =
           [(''sun'', updateMultiplier (Some w) (updateMultiplier (Some 2) ?L))]" for w
    by (rule two_ticks(2)) simp
  have a: "multiplierOf (compositorTick (Some [''sun'' \<mapsto> 2]) (scenario (0, 0, 0) (1, 1, 1)))
             ''sun'' = Some 2"
    using multiplierOf_single[OF t1 mat] v1 by simp
  have "layerMultiplier (updateMultiplier (Some 3) (updateMultiplier (Some 2) ?L)) = 3"
    by (rule updateMultiplier_value[OF mat2]) simp
  then have b: "multiplierOf (compositorTick (Some [''sun'' \<mapsto> 3])
      (compositorTick (Some [''sun'' \<mapsto> 2]) (scenario (0, 0, 0) (1, 1, 1)))) ''sun'' = Some 3"
    using multiplierOf_single[OF t2[of 3] mat2] by simp
  have "layerMultiplier (updateMultiplier (Some 0) (updateMultiplier (Some 2) ?L)) = 2"
    by (simp only: updateMultiplier_zero v1)
  then have c: "multiplierOf (compositorTick (Some [''sun'' \<mapsto> 0])
      (compositorTick (Some [''sun'' \<mapsto> 2]) (scenario (0, 0, 0) (1, 1, 1)))) ''sun'' = Some 2"
    using multiplierOf_single[OF t2[of 0] mat2] by simp
  from a b c show ?thesis by simp
qed

end
